theory Spec2Isabelle
  imports Complex_Main "HOL-Library.Multiset"
begin

section \<open>The stock dashboard: feature pipeline and presentation sections\<close>

text \<open>
  The program is one script, \<open>app.py\<close>: \<open>load_data\<close> reads the uploaded CSV into a
  frame and adds the derived columns, and the rest of the script renders the sections
  chosen by three check boxes. The model keeps the script's order of statements. The
  pandas, numpy and scipy calls are modelled by what they compute on the columns the
  script passes to them; float64 arithmetic is taken as exact arithmetic on the reals,
  extended by \<open>NaN\<close> and the two infinities.
\<close>

subsection \<open>Errors, indexing and winsorization\<close>

datatype error = KeyError string | ParseError | IndexError | ValueError

text \<open>
  \<open>xs[i]\<close> on a sequence: a position from the front, or, for \<open>i < 0\<close>, the position
  \<open>len(xs) + i\<close>; anything else raises \<open>IndexError\<close>.
\<close>

definition getitem :: "'a list \<Rightarrow> int \<Rightarrow> error + 'a" where
  "getitem xs i =
     (if 0 \<le> i \<and> i < int (length xs) then Inr (xs ! nat i)
      else if i < 0 \<and> - int (length xs) \<le> i then Inr (xs ! nat (int (length xs) + i))
      else Inl IndexError)"

text \<open>
  \<open>a.argsort()\<close>: the positions of \<open>a\<close> in ascending order of their values. Equal
  values are kept in their order of appearance here; the results below do not depend on
  how ties are ordered.
\<close>

definition argsort :: "int list \<Rightarrow> nat list" where
  "argsort a = map snd (sort_key fst (zip a [0..<length a]))"

text \<open>\<open>a[js] = v\<close> for a list \<open>js\<close> of positions.\<close>

definition setitems :: "'a list \<Rightarrow> nat list \<Rightarrow> 'a \<Rightarrow> 'a list" where
  "setitems a js v = fold (\<lambda>j acc. acc[j := v]) js a"

text \<open>
  \<open>int(0.01 * n)\<close>. The double nearest to \<open>0.01\<close> lies above \<open>1/100\<close> by less than one
  part in \<open>10\<^sup>1\<^sup>6\<close>, so the product truncates to \<open>n div 100\<close> for every row count a
  file can have.
\<close>

definition int_of_limit :: "nat \<Rightarrow> nat" where
  "int_of_limit n = n div 100"

text \<open>
  \<open>winsorize(a, limits=[0.01, 0.01])\<close> on a column without missing values, as scipy's
  \<open>_winsorize1D\<close> does it with both limits inclusive:
  \<^verbatim>\<open>
    n = a.count(); idx = a.argsort()
    lowidx = int(low_limit * n)
    a[idx[:lowidx]] = a[idx[lowidx]]
    upidx = n - int(n * up_limit)
    a[idx[upidx:]] = a[idx[upidx - 1]]
  \<close>
  On an empty column \<open>idx[lowidx]\<close> is out of range.
\<close>

definition winsorize1D :: "int list \<Rightarrow> error + int list" where
  "winsorize1D a =
     (let n = length a;
          idx = argsort a;
          lowidx = int_of_limit n
      in case getitem idx (int lowidx) of
           Inl e \<Rightarrow> Inl e
         | Inr jl \<Rightarrow>
             (case getitem a (int jl) of
                Inl e \<Rightarrow> Inl e
              | Inr lo \<Rightarrow>
                  (let a1 = setitems a (take lowidx idx) lo;
                       upidx = n - int_of_limit n
                   in case getitem idx (int upidx - 1) of
                        Inl e \<Rightarrow> Inl e
                      | Inr ju \<Rightarrow>
                          (case getitem a1 (int ju) of
                             Inl e \<Rightarrow> Inl e
                           | Inr hi \<Rightarrow> Inr (setitems a1 (drop upidx idx) hi)))))"

text \<open>Clamping a value into \<open>[lo, hi]\<close>, used to state what winsorization computes.\<close>

definition clip :: "int \<Rightarrow> int \<Rightarrow> int \<Rightarrow> int" where
  "clip lo hi v = min hi (max lo v)"

subsection \<open>Cells, rows and frames\<close>

text \<open>
  A \<open>Date\<close> cell of the file is kept as the outcome \<open>pd.to_datetime\<close> has on it: a
  calendar date (year, month, day), a blank cell (\<open>NaT\<close>), or text that does not parse.
  A float64 cell is \<open>fval\<close>: a real number (rounding is not modelled), \<open>NaN\<close> (which
  pandas also reads as "missing"), or an infinity. In a line of the file only \<open>Trades\<close>
  may be blank: the prices are numbers and \<open>Volume\<close> is an integer.
\<close>

datatype date_cell = Timestamp nat nat nat | NaT | Unparseable

datatype fval = NaN | Fin real | PInf | NInf

record raw_row =
  Date :: date_cell
  Open :: real
  High :: real
  Low :: real
  Close :: real
  Volume :: int
  Trades :: "int option"
  VWAP :: real

record row = raw_row +
  index :: nat
  Daily_Return :: fval
  MA5 :: fval
  MA20 :: fval
  MA50 :: fval
  Volume_Change :: fval
  High_Low_Difference :: real
  Rolling_Volatility_20 :: fval
  Rolling_Mean_20 :: fval
  Month :: "nat option"

text \<open>
  The uploaded file: its header line (the column names) and its data lines. A field of
  a line whose column is not in the header is never read.
\<close>

record csv_file =
  header :: "string list"
  lines :: "raw_row list"

record dataframe =
  columns :: "string list"
  rows :: "row list"

subsection \<open>The frame operations \<open>load_data\<close> calls\<close>

definition bind :: "error + 'a \<Rightarrow> ('a \<Rightarrow> error + 'b) \<Rightarrow> error + 'b" where
  "bind m f = (case m of Inl e \<Rightarrow> Inl e | Inr x \<Rightarrow> f x)"

definition new_row :: "nat \<Rightarrow> raw_row \<Rightarrow> row" where
  "new_row i r =
     \<lparr>Date = Date r, Open = Open r, High = High r, Low = Low r, Close = Close r,
      Volume = Volume r, Trades = Trades r, VWAP = VWAP r,
      index = i, Daily_Return = NaN, MA5 = NaN, MA20 = NaN, MA50 = NaN,
      Volume_Change = NaN, High_Low_Difference = 0, Rolling_Volatility_20 = NaN,
      Rolling_Mean_20 = NaN, Month = None\<rparr>"

definition read_csv :: "csv_file \<Rightarrow> dataframe" where
  "read_csv file =
     \<lparr>columns = header file,
      rows = map (\<lambda>(i, r). new_row i r) (zip [0..<length (lines file)] (lines file))\<rparr>"

text \<open>\<open>df[name]\<close>: the column, or \<open>KeyError\<close> when the frame has no such column.\<close>

definition getcol :: "(row \<Rightarrow> 'a) \<Rightarrow> string \<Rightarrow> dataframe \<Rightarrow> error + 'a list" where
  "getcol f name df =
     (if name \<in> set (columns df) then Inr (map f (rows df)) else Inl (KeyError name))"

text \<open>
  \<open>df[name] = values\<close>: overwrites the column, or appends it after the last one;
  pandas raises \<open>ValueError\<close> when the lengths differ.
\<close>

definition setcol ::
  "(row \<Rightarrow> 'a \<Rightarrow> row) \<Rightarrow> string \<Rightarrow> 'a list \<Rightarrow> dataframe \<Rightarrow> error + dataframe" where
  "setcol upd name vs df =
     (if length vs \<noteq> length (rows df) then Inl ValueError
      else Inr \<lparr>columns = (if name \<in> set (columns df) then columns df
                              else columns df @ [name]),
                rows = map (\<lambda>(r, v). upd r v) (zip (rows df) vs)\<rparr>)"

definition to_datetime :: "date_cell list \<Rightarrow> error + date_cell list" where
  "to_datetime ds = (if Unparseable \<in> set ds then Inl ParseError else Inr ds)"

text \<open>\<open>df.dropna(subset=[name], inplace=True)\<close> for the \<open>Trades\<close> column.\<close>

definition dropna_Trades :: "dataframe \<Rightarrow> error + dataframe" where
  "dropna_Trades df =
     (if ''Trades'' \<in> set (columns df)
      then Inr (df\<lparr>rows := filter (\<lambda>r. Trades r \<noteq> None) (rows df)\<rparr>)
      else Inl (KeyError ''Trades''))"

subsection \<open>Float arithmetic on columns\<close>

text \<open>
  Division of two finite floats as numpy does it on arrays: a zero divisor gives an
  infinity of the dividend's sign, and \<open>0/0\<close> gives \<open>NaN\<close> (zero is taken as \<open>+0.0\<close>).
\<close>

definition fdiv :: "real \<Rightarrow> real \<Rightarrow> fval" where
  "fdiv x y =
     (if y \<noteq> 0 then Fin (x / y)
      else if 0 < x then PInf else if x < 0 then NInf else NaN)"

fun fsub1 :: "fval \<Rightarrow> fval" where
  "fsub1 (Fin r) = Fin (r - 1)"
| "fsub1 v = v"

text \<open>\<open>Series.shift(1)\<close>: every value moves one row down, the first row is missing.\<close>

definition shift1 :: "'a list \<Rightarrow> 'a option list" where
  "shift1 xs = (if xs = [] then [] else None # map Some (butlast xs))"

text \<open>\<open>Series.pct_change()\<close> is \<open>data / data.shift(1) - 1\<close>.\<close>

definition pct_change :: "real list \<Rightarrow> fval list" where
  "pct_change xs =
     map (\<lambda>(x, p). case p of None \<Rightarrow> NaN | Some y \<Rightarrow> fsub1 (fdiv x y)) (zip xs (shift1 xs))"

subsection \<open>Rolling windows\<close>

text \<open>
  \<open>Series.rolling(window=w)\<close> looks at row \<open>i\<close> at the rows \<open>max(0, i-w+1) .. i\<close>, with
  \<open>min_periods = w\<close>. Infinities are turned into \<open>NaN\<close> first, and \<open>NaN\<close> is not an
  observation.
\<close>

definition window :: "nat \<Rightarrow> 'a list \<Rightarrow> nat \<Rightarrow> 'a list" where
  "window w xs i = drop (Suc i - w) (take (Suc i) xs)"

fun observations :: "fval list \<Rightarrow> real list" where
  "observations [] = []"
| "observations (Fin r # vs) = r # observations vs"
| "observations (v # vs) = observations vs"

definition calc_mean :: "nat \<Rightarrow> real list \<Rightarrow> fval" where
  "calc_mean minp obs =
     (let nobs = length obs
      in if minp \<le> nobs \<and> 0 < nobs then Fin (sum_list obs / real nobs) else NaN)"

definition calc_std :: "nat \<Rightarrow> nat \<Rightarrow> real list \<Rightarrow> fval" where
  "calc_std minp ddof obs =
     (let nobs = length obs
      in if minp \<le> nobs \<and> ddof < nobs
         then (let mean_x = sum_list obs / real nobs;
                   ssqdm_x = sum_list (map (\<lambda>x. (x - mean_x)\<^sup>2) obs)
               in Fin (sqrt (ssqdm_x / real (nobs - ddof))))
         else NaN)"

definition rolling_mean :: "nat \<Rightarrow> fval list \<Rightarrow> fval list" where
  "rolling_mean w xs = map (\<lambda>i. calc_mean w (observations (window w xs i))) [0..<length xs]"

definition rolling_std :: "nat \<Rightarrow> fval list \<Rightarrow> fval list" where
  "rolling_std w xs = map (\<lambda>i. calc_std w 1 (observations (window w xs i))) [0..<length xs]"

subsection \<open>\<open>load_data\<close>\<close>

definition month_of :: "date_cell \<Rightarrow> nat option" where
  "month_of d = (case d of Timestamp y m dd \<Rightarrow> Some m | _ \<Rightarrow> None)"

text \<open>
  One definition for each assignment of \<open>load_data\<close>, in the order of the source. Each
  reads its columns with \<open>df[...]\<close> and stops the load with the first exception. The
  \<open>st.cache_data\<close> decorator only memoizes the result and is left out.
\<close>

definition assign_Date :: "dataframe \<Rightarrow> error + dataframe" where
  "assign_Date df =
     bind (getcol Date ''Date'' df) (\<lambda>ds.
     bind (to_datetime ds) (\<lambda>ts.
     setcol (\<lambda>r v. r\<lparr>Date := v\<rparr>) ''Date'' ts df))"

definition assign_Volume :: "dataframe \<Rightarrow> error + dataframe" where
  "assign_Volume df =
     bind (getcol Volume ''Volume'' df) (\<lambda>vs.
     bind (winsorize1D vs) (\<lambda>ws.
     setcol (\<lambda>r v. r\<lparr>Volume := v\<rparr>) ''Volume'' ws df))"

definition assign_Daily_Return :: "dataframe \<Rightarrow> error + dataframe" where
  "assign_Daily_Return df =
     bind (getcol Close ''Close'' df) (\<lambda>cs.
     setcol (\<lambda>r v. r\<lparr>Daily_Return := v\<rparr>) ''Daily_Return'' (pct_change cs) df)"

definition assign_MA5 :: "dataframe \<Rightarrow> error + dataframe" where
  "assign_MA5 df =
     bind (getcol Close ''Close'' df) (\<lambda>cs.
     setcol (\<lambda>r v. r\<lparr>MA5 := v\<rparr>) ''MA5'' (rolling_mean 5 (map Fin cs)) df)"

definition assign_MA20 :: "dataframe \<Rightarrow> error + dataframe" where
  "assign_MA20 df =
     bind (getcol Close ''Close'' df) (\<lambda>cs.
     setcol (\<lambda>r v. r\<lparr>MA20 := v\<rparr>) ''MA20'' (rolling_mean 20 (map Fin cs)) df)"

definition assign_MA50 :: "dataframe \<Rightarrow> error + dataframe" where
  "assign_MA50 df =
     bind (getcol Close ''Close'' df) (\<lambda>cs.
     setcol (\<lambda>r v. r\<lparr>MA50 := v\<rparr>) ''MA50'' (rolling_mean 50 (map Fin cs)) df)"

definition assign_Volume_Change :: "dataframe \<Rightarrow> error + dataframe" where
  "assign_Volume_Change df =
     bind (getcol Volume ''Volume'' df) (\<lambda>vs.
     setcol (\<lambda>r v. r\<lparr>Volume_Change := v\<rparr>) ''Volume_Change''
       (pct_change (map real_of_int vs)) df)"

definition assign_High_Low_Difference :: "dataframe \<Rightarrow> error + dataframe" where
  "assign_High_Low_Difference df =
     bind (getcol High ''High'' df) (\<lambda>hs.
     bind (getcol Low ''Low'' df) (\<lambda>ls.
     setcol (\<lambda>r v. r\<lparr>High_Low_Difference := v\<rparr>) ''High_Low_Difference''
       (map (\<lambda>(h, l). h - l) (zip hs ls)) df))"

definition assign_Rolling_Volatility_20 :: "dataframe \<Rightarrow> error + dataframe" where
  "assign_Rolling_Volatility_20 df =
     bind (getcol Daily_Return ''Daily_Return'' df) (\<lambda>ds.
     setcol (\<lambda>r v. r\<lparr>Rolling_Volatility_20 := v\<rparr>) ''Rolling_Volatility_20''
       (rolling_std 20 ds) df)"

definition assign_Rolling_Mean_20 :: "dataframe \<Rightarrow> error + dataframe" where
  "assign_Rolling_Mean_20 df =
     bind (getcol Daily_Return ''Daily_Return'' df) (\<lambda>ds.
     setcol (\<lambda>r v. r\<lparr>Rolling_Mean_20 := v\<rparr>) ''Rolling_Mean_20''
       (rolling_mean 20 ds) df)"

definition assign_Month :: "dataframe \<Rightarrow> error + dataframe" where
  "assign_Month df =
     bind (getcol Date ''Date'' df) (\<lambda>ds.
     setcol (\<lambda>r v. r\<lparr>Month := v\<rparr>) ''Month'' (map month_of ds) df)"

definition load_data :: "csv_file \<Rightarrow> error + dataframe" where
  "load_data file =
     bind (Inr (read_csv file)) (\<lambda>df.
     bind (assign_Date df) (\<lambda>df.
     bind (dropna_Trades df) (\<lambda>df.
     bind (assign_Volume df) (\<lambda>df.
     bind (assign_Daily_Return df) (\<lambda>df.
     bind (assign_MA5 df) (\<lambda>df.
     bind (assign_MA20 df) (\<lambda>df.
     bind (assign_MA50 df) (\<lambda>df.
     bind (assign_Volume_Change df) (\<lambda>df.
     bind (assign_High_Low_Difference df) (\<lambda>df.
     bind (assign_Rolling_Volatility_20 df) (\<lambda>df.
     bind (assign_Rolling_Mean_20 df) (\<lambda>df.
     bind (assign_Month df) (\<lambda>df.
     Inr df)))))))))))))"

subsection \<open>The presentation sections\<close>

text \<open>
  What the script puts on the page, in order. A chart is kept as the series it is drawn
  from, and a summary statistic as the series it summarizes: the numbers \<open>describe\<close>,
  \<open>corr\<close>, \<open>mean\<close> and \<open>std\<close> compute are not modelled. Layout (columns of the page, figure
  sizes, colours) is left out, and so are the emoji of the headings.
\<close>

datatype summary = MeanOf "fval list" | StdOf "fval list"

datatype plot =
    Hist string "fval list" nat
  | Line string "date_cell list" "fval list"
  | Scatter "fval list" "fval list"
  | Heatmap "(string \<times> fval list) list"
  | Bar "(nat \<times> summary) list"

datatype artifact =
    Title string
  | Header string
  | Subheader string
  | Warning string
  | Write string
  | Write_shape nat nat
  | Write_counts "(string \<times> nat) list"
  | Write_dtypes "string list"
  | Dataframe "row list"
  | Describe "(string \<times> fval list) list"
  | Pyplot "plot list"
  | Metric string summary

text \<open>
  The state of one run of the script: the frame bound to \<open>df\<close> (if any), the page so
  far, and the exception that stopped the run (if any).
\<close>

record session =
  frame :: "dataframe option"
  page :: "artifact list"
  exc :: "error option"

text \<open>
  The frame is one mutable object, and a call on it may change it: \<open>load_data\<close> does so
  with \<open>df[name] = values\<close> and with \<open>dropna(..., inplace=True)\<close>. A call on \<open>df\<close> is
  therefore a function from the frame before the call to its value (or its exception)
  together with the frame after the call, and calls are chained through the frame.
\<close>

type_synonym 'a pd = "dataframe \<Rightarrow> (error + 'a) \<times> dataframe"

definition ret :: "'a \<Rightarrow> 'a pd" where
  "ret x d = (Inr x, d)"

definition then_pd :: "'a pd \<Rightarrow> ('a \<Rightarrow> 'b pd) \<Rightarrow> 'b pd" where
  "then_pd m f d = (case m d of (Inl e, d') \<Rightarrow> (Inl e, d') | (Inr x, d') \<Rightarrow> f x d')"

text \<open>
  A statement that changes the frame in place, such as the assignments of \<open>load_data\<close>:
  it has no value, and the frame after it is the new one (the old one if it raises).
\<close>

definition in_place :: "(dataframe \<Rightarrow> error + dataframe) \<Rightarrow> unit pd" where
  "in_place g d = (case g d of Inl e \<Rightarrow> (Inl e, d) | Inr d' \<Rightarrow> (Inr (), d'))"

text \<open>
  A computation on objects that were taken out of the frame before (a \<open>Series\<close>
  returned by \<open>df[name]\<close>, the frame returned by \<open>df[[names]]\<close>): it does not touch \<open>df\<close>.
\<close>

definition on_copy :: "error + 'a \<Rightarrow> 'a pd" where
  "on_copy r d = (r, d)"

text \<open>The value of a row in a named column, as a float; other columns are not carried.\<close>

definition cell :: "string \<Rightarrow> row \<Rightarrow> fval" where
  "cell name r =
     (if name = ''Open'' then Fin (Open r)
      else if name = ''High'' then Fin (High r)
      else if name = ''Low'' then Fin (Low r)
      else if name = ''Close'' then Fin (Close r)
      else if name = ''Volume'' then Fin (real_of_int (Volume r))
      else if name = ''Trades'' then (case Trades r of None \<Rightarrow> NaN | Some t \<Rightarrow> Fin (real_of_int t))
      else if name = ''VWAP'' then Fin (VWAP r)
      else if name = ''Daily_Return'' then Daily_Return r
      else if name = ''MA5'' then MA5 r
      else if name = ''MA20'' then MA20 r
      else if name = ''MA50'' then MA50 r
      else if name = ''Volume_Change'' then Volume_Change r
      else if name = ''High_Low_Difference'' then Fin (High_Low_Difference r)
      else if name = ''Rolling_Volatility_20'' then Rolling_Volatility_20 r
      else if name = ''Rolling_Mean_20'' then Rolling_Mean_20 r
      else if name = ''Month'' then (case Month r of None \<Rightarrow> NaN | Some m \<Rightarrow> Fin (real m))
      else NaN)"

text \<open>
  The calls the sections make on \<open>df\<close> itself. Each returns a new object and leaves the
  frame as it is, which the second component says: \<open>df[name]\<close>, \<open>df[[names]]\<close> (the error
  names the first column that is not there), \<open>df['Date']\<close>, \<open>df.head(n)\<close>, \<open>df.shape\<close>,
  \<open>df.isnull().sum()\<close> (over the columns the model carries), \<open>df.dtypes\<close> and
  \<open>df.groupby('Month')['Daily_Return'].mean()\<close> (one group for each month that occurs).
\<close>

definition df_getitem :: "string \<Rightarrow> fval list pd" where
  "df_getitem name d =
     (if name \<in> set (columns d) then Inr (map (cell name) (rows d)) else Inl (KeyError name), d)"

fun df_getitems :: "string list \<Rightarrow> (string \<times> fval list) list pd" where
  "df_getitems [] = ret []"
| "df_getitems (n # ns) =
     then_pd (df_getitem n) (\<lambda>xs. then_pd (df_getitems ns) (\<lambda>rest. ret ((n, xs) # rest)))"

definition df_dates :: "date_cell list pd" where
  "df_dates d = (getcol Date ''Date'' d, d)"

definition df_head :: "nat \<Rightarrow> row list pd" where
  "df_head n d = (Inr (take n (rows d)), d)"

definition df_shape :: "(nat \<times> nat) pd" where
  "df_shape d = (Inr (length (rows d), length (columns d)), d)"

definition df_isnull_sum :: "(string \<times> nat) list pd" where
  "df_isnull_sum d =
     (Inr (map (\<lambda>name. (name,
                 if name = ''Date'' then length (filter (\<lambda>r. Date r = NaT) (rows d))
                 else length (filter (\<lambda>r. cell name r = NaN) (rows d))))
              (filter (\<lambda>name. name \<in> set [''Date'', ''Open'', ''High'', ''Low'', ''Close'',
                 ''Volume'', ''Trades'', ''VWAP'', ''Daily_Return'', ''MA5'', ''MA20'', ''MA50'',
                 ''Volume_Change'', ''High_Low_Difference'', ''Rolling_Volatility_20'',
                 ''Rolling_Mean_20'', ''Month''])
                 (columns d))),
      d)"

definition df_dtypes :: "string list pd" where
  "df_dtypes d = (Inr (columns d), d)"

definition df_groupby_Month_mean :: "(nat \<times> summary) list pd" where
  "df_groupby_Month_mean d =
     (if ''Month'' \<notin> set (columns d) then Inl (KeyError ''Month'')
      else if ''Daily_Return'' \<notin> set (columns d) then Inl (KeyError ''Daily_Return'')
      else Inr (map (\<lambda>m. (m, MeanOf (map Daily_Return (filter (\<lambda>r. Month r = Some m) (rows d)))))
                    (sort (remdups (concat (map (\<lambda>r. case Month r of None \<Rightarrow> [] | Some m \<Rightarrow> [m])
                                                 (rows d)))))),
      d)"

text \<open>
  \<open>Series.dropna()\<close> without \<open>inplace\<close> returns a new series. A histogram of a series;
  numpy refuses a range that is not finite.
\<close>

definition dropna :: "fval list \<Rightarrow> fval list" where
  "dropna xs = filter (\<lambda>v. v \<noteq> NaN) xs"

definition hist :: "string \<Rightarrow> nat \<Rightarrow> fval list \<Rightarrow> error + plot" where
  "hist label bins xs =
     (if PInf \<in> set xs \<or> NInf \<in> set xs then Inl ValueError else Inr (Hist label (dropna xs) bins))"

text \<open>\<open>ax.plot(df['Date'], df[name], label=name)\<close>.\<close>

definition line :: "string \<Rightarrow> plot pd" where
  "line name = then_pd df_dates (\<lambda>ts. then_pd (df_getitem name) (\<lambda>ys. ret (Line name ts ys)))"

fun collect :: "'a pd list \<Rightarrow> 'a list pd" where
  "collect [] = ret []"
| "collect (m # ms) = then_pd m (\<lambda>x. then_pd (collect ms) (\<lambda>xs. ret (x # xs)))"

fun hists :: "nat \<Rightarrow> (string \<times> fval list) list \<Rightarrow> error + plot list" where
  "hists bins [] = Inr []"
| "hists bins ((n, xs) # f) =
     bind (hist n bins xs) (\<lambda>p. bind (hists bins f) (\<lambda>ps. Inr (p # ps)))"

text \<open>
  One statement that shows something: nothing happens once an exception has stopped the
  run; otherwise the calls are made on the frame, the frame they leave is the frame the
  next statement sees, and the artifact is appended to the page or the exception is
  recorded.
\<close>

definition run :: "artifact pd \<Rightarrow> session \<Rightarrow> session" where
  "run m s =
     (case (exc s, frame s) of
        (None, Some d) \<Rightarrow>
          (case m d of
             (Inl e, d') \<Rightarrow> s\<lparr>frame := Some d', exc := Some e\<rparr>
           | (Inr a, d') \<Rightarrow> s\<lparr>frame := Some d', page := page s @ [a]\<rparr>)
      | _ \<Rightarrow> s)"

definition eda_section :: "artifact pd list" where
  "eda_section =
     [ret (Header ''Data Overview''),
      ret (Subheader ''First 5 Rows of the Dataset''),
      then_pd (df_head 5) (\<lambda>rs. ret (Dataframe rs)),
      ret (Subheader ''Dataset Info''),
      then_pd df_shape (\<lambda>(n, k). ret (Write_shape n k)),
      ret (Write ''Missing Values:''),
      then_pd df_isnull_sum (\<lambda>cs. ret (Write_counts cs)),
      ret (Write ''Data Types:''),
      then_pd df_dtypes (\<lambda>ts. ret (Write_dtypes ts)),
      ret (Subheader ''Descriptive Statistics''),
      then_pd (df_getitems [''Open'', ''High'', ''Low'', ''Close'', ''Volume''])
        (\<lambda>f. ret (Describe f))]"

definition visuals_section :: "artifact pd list" where
  "visuals_section =
     [ret (Header ''Visual Explorations''),
      ret (Subheader ''Price Distribution Histograms''),
      then_pd (df_getitems [''Open'', ''High'', ''Low'', ''Close'', ''Volume'']) (\<lambda>f.
        then_pd (on_copy (hists 30 f)) (\<lambda>ps. ret (Pyplot ps))),
      ret (Subheader ''Stock Prices Over Time''),
      then_pd (collect [line ''Open'', line ''High'', line ''Low'', line ''Close''])
        (\<lambda>ps. ret (Pyplot ps)),
      ret (Subheader ''Trading Volume Over Time''),
      then_pd (collect [line ''Volume'']) (\<lambda>ps. ret (Pyplot ps)),
      ret (Subheader ''Moving Averages''),
      then_pd (collect [line ''Close'', line ''MA5'', line ''MA20'', line ''MA50''])
        (\<lambda>ps. ret (Pyplot ps)),
      ret (Subheader ''Distribution of Returns & Volume Change''),
      then_pd (collect
                 [then_pd (df_getitem ''Daily_Return'') (\<lambda>xs. on_copy (hist ''Daily Return'' 50 xs)),
                  then_pd (df_getitem ''Volume_Change'') (\<lambda>xs. on_copy (hist ''Volume Change'' 50 xs))])
        (\<lambda>ps. ret (Pyplot ps)),
      ret (Subheader ''Correlation Matrix Heatmap''),
      then_pd (df_getitems [''Open'', ''High'', ''Low'', ''Close'', ''VWAP'', ''Volume'',
                            ''Daily_Return'', ''MA5'', ''MA20'', ''MA50'', ''Volume_Change'',
                            ''High_Low_Difference''])
        (\<lambda>f. ret (Pyplot [Heatmap f])),
      ret (Subheader ''Volatility Trend Over Time''),
      then_pd (collect [line ''Rolling_Volatility_20'']) (\<lambda>ps. ret (Pyplot ps)),
      ret (Subheader ''Volume vs Return Scatter''),
      then_pd (df_getitem ''Volume_Change'') (\<lambda>xs.
        then_pd (df_getitem ''Daily_Return'') (\<lambda>ys. ret (Pyplot [Scatter xs ys]))),
      ret (Subheader ''Average Monthly Return''),
      then_pd df_groupby_Month_mean (\<lambda>g. ret (Pyplot [Bar g]))]"

definition metrics_section :: "artifact pd list" where
  "metrics_section =
     [ret (Header ''Key Metrics''),
      then_pd (df_getitem ''Daily_Return'') (\<lambda>xs. ret (Metric ''Avg Daily Return'' (MeanOf xs))),
      then_pd (df_getitem ''Daily_Return'') (\<lambda>xs. ret (Metric ''Volatility (Std Dev)'' (StdOf xs))),
      then_pd (df_getitem ''Volume'') (\<lambda>xs. ret (Metric ''Avg Trading Volume'' (MeanOf xs)))]"

text \<open>The body of \<open>if uploaded_file:\<close> after \<open>load_data\<close>: the title and the three sections.\<close>

definition render :: "bool \<Rightarrow> bool \<Rightarrow> bool \<Rightarrow> session \<Rightarrow> session" where
  "render show_eda show_visuals show_metrics s =
     (let s1 = run (ret (Title ''Adani Ports Stock Market Dashboard'')) s;
          s2 = (if show_eda then fold run eda_section s1 else s1);
          s3 = (if show_visuals then fold run visuals_section s2 else s2)
      in if show_metrics then fold run metrics_section s3 else s3)"

text \<open>
  The script from \<open>if uploaded_file:\<close> on. An exception in \<open>load_data\<close> ends the run before
  anything of the page body is shown.
\<close>

definition run_app :: "csv_file option \<Rightarrow> bool \<Rightarrow> bool \<Rightarrow> bool \<Rightarrow> session" where
  "run_app uploaded_file show_eda show_visuals show_metrics =
     (case uploaded_file of
        None \<Rightarrow> \<lparr>frame = None, page = [Warning ''Please upload a CSV file to begin.''], exc = None\<rparr>
      | Some file \<Rightarrow>
          (case load_data file of
             Inl e \<Rightarrow> \<lparr>frame = None, page = [], exc = Some e\<rparr>
           | Inr d \<Rightarrow> render show_eda show_visuals show_metrics
                        \<lparr>frame = Some d, page = [], exc = None\<rparr>))"

subsection \<open>Notions used to state the properties\<close>

text \<open>The lines of the file that \<open>dropna\<close> keeps, in file order.\<close>

abbreviation retained :: "csv_file \<Rightarrow> raw_row list" where
  "retained file \<equiv> filter (\<lambda>r. Trades r \<noteq> None) (lines file)"

text \<open>
  A file on which no statement of \<open>load_data\<close> fails before the winsorization: the six
  columns that \<open>load_data\<close> reads are there and every date parses.
\<close>

definition loadable :: "csv_file \<Rightarrow> bool" where
  "loadable file \<longleftrightarrow>
     ''Date'' \<in> set (header file) \<and> ''Trades'' \<in> set (header file) \<and>
     ''Volume'' \<in> set (header file) \<and> ''Close'' \<in> set (header file) \<and>
     ''High'' \<in> set (header file) \<and> ''Low'' \<in> set (header file) \<and>
     Unparseable \<notin> Date ` set (lines file)"

text \<open>A small file, with one line whose \<open>Trades\<close> is missing and dates out of order.\<close>

definition example_row :: raw_row where
  "example_row = \<lparr>Date = Timestamp 2021 3 1, Open = 10, High = 12, Low = 9, Close = 10,
                   Volume = 500, Trades = Some 40, VWAP = 10\<rparr>"

definition example_file :: csv_file where
  "example_file =
     \<lparr>header = [''Date'', ''Open'', ''High'', ''Low'', ''Close'', ''Volume'', ''Trades'', ''VWAP''],
      lines = [example_row,
               example_row\<lparr>Date := Timestamp 2021 3 2, Close := 11, Trades := None\<rparr>,
               example_row\<lparr>Date := Timestamp 2021 2 26, Close := 12, Volume := 90000\<rparr>,
               example_row\<lparr>Date := Timestamp 2021 3 4, Close := 9, Volume := 0\<rparr>]\<rparr>"

text \<open>
  The percentile of the properties below is the nearest-rank one: the \<open>p\<close>-th percentile
  of \<open>n\<close> values is the value of rank \<open>\<lceil>p * n / 100\<rceil>\<close> in ascending order, itself one of
  the values. There is none for an empty column.
\<close>

definition percentile_nearest_rank :: "nat \<Rightarrow> int list \<Rightarrow> int option" where
  "percentile_nearest_rank p vs =
     (if vs = [] then None else Some (sort vs ! ((p * length vs + 99) div 100 - 1)))"

text \<open>A file whose lines all lack \<open>Trades\<close>.\<close>

definition untraded_file :: csv_file where
  "untraded_file =
     \<lparr>header = [''Date'', ''Open'', ''High'', ''Low'', ''Close'', ''Volume'', ''Trades'', ''VWAP''],
      lines = [example_row\<lparr>Trades := None\<rparr>, example_row\<lparr>Volume := 900000, Trades := None\<rparr>]\<rparr>"

text \<open>Two hundred lines with \<open>Trades\<close> present; line 137 has a \<open>Volume\<close> far above the rest.\<close>

definition outlier_file :: csv_file where
  "outlier_file =
     \<lparr>header = [''Date'', ''Open'', ''High'', ''Low'', ''Close'', ''Volume'', ''Trades'', ''VWAP''],
      lines = map (\<lambda>i. example_row\<lparr>Volume := (if i = 137 then 5000000 else 1000 + int i)\<rparr>)
                  [0..<200]\<rparr>"

text \<open>Sixty lines, all with \<open>Trades\<close> present and \<open>Close\<close> equal to 100.\<close>

definition constant_file :: csv_file where
  "constant_file =
     \<lparr>header = [''Date'', ''Open'', ''High'', ''Low'', ''Close'', ''Volume'', ''Trades'', ''VWAP''],
      lines = map (\<lambda>i. example_row\<lparr>Close := 100, Volume := 1000 + 7 * int i\<rparr>) [0..<60]\<rparr>"

text \<open>The same file with the \<open>Date\<close> cells of its lines replaced, line by line.\<close>

definition with_dates :: "date_cell list \<Rightarrow> csv_file \<Rightarrow> csv_file" where
  "with_dates ds file = file\<lparr>lines := map (\<lambda>(r, d). r\<lparr>Date := d\<rparr>) (zip (lines file) ds)\<rparr>"

text \<open>The small file without its \<open>VWAP\<close> column, and without its \<open>Trades\<close> column.\<close>

definition no_vwap_file :: csv_file where
  "no_vwap_file = example_file\<lparr>header := [''Date'', ''Open'', ''High'', ''Low'', ''Close'', ''Volume'', ''Trades'']\<rparr>"

definition no_trades_file :: csv_file where
  "no_trades_file = example_file\<lparr>header := [''Date'', ''Open'', ''High'', ''Low'', ''Close'', ''Volume'', ''VWAP'']\<rparr>"

text \<open>A file with its header line and no data line.\<close>

definition header_only_file :: csv_file where
  "header_only_file =
     \<lparr>header = [''Date'', ''Open'', ''High'', ''Low'', ''Close'', ''Volume'', ''Trades'', ''VWAP''],
      lines = []\<rparr>"

section \<open>Winsorization clamps between two order statistics\<close>

lemma length_setitems [simp]: "length (setitems a js v) = length a"
  unfolding setitems_def by (induction js arbitrary: a) auto

lemma nth_setitems:
  "j < length a \<Longrightarrow> setitems a js v ! j = (if j \<in> set js then v else a ! j)"
  unfolding setitems_def
proof (induction js arbitrary: a)
  case Nil
  then show ?case by simp
next
  case (Cons k js)
  show ?case
  proof (cases "j \<in> set js")
    case True
    then show ?thesis using Cons by simp
  next
    case False
    then show ?thesis using Cons by (simp add: nth_list_update)
  qed
qed

lemma mset_map_sort_key: "mset (map f (sort_key g zs)) = mset (map f zs)"
  by simp

lemma argsort_mset: "mset (argsort a) = mset [0..<length a]"
proof -
  have "mset (argsort a) = mset (map snd (zip a [0..<length a]))"
    unfolding argsort_def by (rule mset_map_sort_key)
  also have "map snd (zip a [0..<length a]) = [0..<length a]"
    by (rule map_snd_zip) simp
  finally show ?thesis .
qed

lemma length_argsort [simp]: "length (argsort a) = length a"
  unfolding argsort_def by simp

lemma set_argsort [simp]: "set (argsort a) = {0..<length a}"
  using argsort_mset [of a] by (metis mset_eq_setD set_upt)

lemma distinct_argsort [simp]: "distinct (argsort a)"
  using argsort_mset [of a] by (metis distinct_upt mset_eq_imp_distinct_iff)

lemma zip_upt_fst: "p \<in> set (zip a [0..<length a]) \<Longrightarrow> a ! snd p = fst p"
  by (auto simp: set_zip)

lemma map_nth_argsort: "map ((!) a) (argsort a) = sort a"
proof -
  let ?ps = "sort_key fst (zip a [0..<length a])"
  have "\<forall>p \<in> set ?ps. a ! snd p = fst p"
    using zip_upt_fst by fastforce
  then have eq: "map ((!) a) (argsort a) = map fst ?ps"
    unfolding argsort_def by simp
  have "sorted (map fst ?ps)" by simp
  moreover have "mset (map fst ?ps) = mset a"
  proof -
    have "mset (map fst ?ps) = mset (map fst (zip a [0..<length a]))"
      by (rule mset_map_sort_key)
    also have "map fst (zip a [0..<length a]) = a"
      by (rule map_fst_zip) simp
    finally show ?thesis .
  qed
  ultimately have "map fst ?ps = sort a"
    by (metis properties_for_sort)
  with eq show ?thesis by simp
qed


lemma nth_argsort_less: "i < length a \<Longrightarrow> argsort a ! i < length a"
  using set_argsort [of a] nth_mem [of i "argsort a"] by auto

lemma nth_nth_argsort: "i < length a \<Longrightarrow> a ! (argsort a ! i) = sort a ! i"
proof -
  assume i: "i < length a"
  have "map ((!) a) (argsort a) ! i = sort a ! i"
    by (simp only: map_nth_argsort)
  with i show ?thesis by simp
qed

lemma argsort_position:
  assumes "j < length a"
  obtains m where "m < length a" and "argsort a ! m = j"
proof -
  from assms have "j \<in> set (argsort a)" by simp
  then have "\<exists>m<length (argsort a). argsort a ! m = j"
    by (simp only: in_set_conv_nth)
  then obtain m where "m < length a" and "argsort a ! m = j"
    by auto
  then show thesis by (rule that)
qed

lemma distinct_nth_in_take:
  "distinct xs \<Longrightarrow> m < length xs \<Longrightarrow> xs ! m \<in> set (take k xs) \<longleftrightarrow> m < k"
  by (auto simp: in_set_conv_nth nth_eq_iff_index_eq)

lemma distinct_nth_in_drop:
  "distinct xs \<Longrightarrow> m < length xs \<Longrightarrow> xs ! m \<in> set (drop k xs) \<longleftrightarrow> k \<le> m"
proof -
  assume d: "distinct xs" and m: "m < length xs"
  have "xs ! m \<in> set (take k xs) \<union> set (drop k xs)"
    using m by (metis append_take_drop_id nth_mem set_append)
  moreover have "set (take k xs) \<inter> set (drop k xs) = {}"
    using d by (metis append_take_drop_id distinct_append)
  ultimately show ?thesis
    using distinct_nth_in_take [OF d m, of k] by auto
qed


lemma low_le_up_index: "0 < (n::nat) \<Longrightarrow> n div 100 \<le> n - n div 100 - 1"
  by arith

lemma setitems_take_argsort:
  assumes k: "k < length a"
  shows "setitems a (take k (argsort a)) (sort a ! k) = map (max (sort a ! k)) a"
proof (rule nth_equalityI)
  show "length (setitems a (take k (argsort a)) (sort a ! k)) = length (map (max (sort a ! k)) a)"
    by simp
next
  fix j assume "j < length (setitems a (take k (argsort a)) (sort a ! k))"
  then have j: "j < length a" by simp
  then obtain m where m: "m < length a" and jm: "argsort a ! m = j"
    by (rule argsort_position)
  have aj: "a ! j = sort a ! m" using nth_nth_argsort [OF m] jm by simp
  have mem: "j \<in> set (take k (argsort a)) \<longleftrightarrow> m < k"
    using distinct_nth_in_take [of "argsort a" m k] m jm by simp
  have srt: "sorted (sort a)" by simp
  show "setitems a (take k (argsort a)) (sort a ! k) ! j = map (max (sort a ! k)) a ! j"
  proof (cases "m < k")
    case True
    then have "sort a ! m \<le> sort a ! k"
      using sorted_nth_mono [OF srt, of m k] k by simp
    then show ?thesis using True j mem aj by (simp add: nth_setitems max_def)
  next
    case False
    then have "sort a ! k \<le> sort a ! m"
      using sorted_nth_mono [OF srt, of k m] m by simp
    then show ?thesis using False j mem aj by (simp add: nth_setitems max_def)
  qed
qed

lemma setitems_drop_argsort:
  assumes u: "u < length a" and lo: "lo \<le> sort a ! u"
  shows "setitems (map (max lo) a) (drop (Suc u) (argsort a)) (sort a ! u) =
         map (clip lo (sort a ! u)) a"
proof (rule nth_equalityI)
  show "length (setitems (map (max lo) a) (drop (Suc u) (argsort a)) (sort a ! u)) =
        length (map (clip lo (sort a ! u)) a)"
    by simp
next
  fix j assume "j < length (setitems (map (max lo) a) (drop (Suc u) (argsort a)) (sort a ! u))"
  then have j: "j < length a" by simp
  then obtain m where m: "m < length a" and jm: "argsort a ! m = j"
    by (rule argsort_position)
  have aj: "a ! j = sort a ! m" using nth_nth_argsort [OF m] jm by simp
  have mem: "j \<in> set (drop (Suc u) (argsort a)) \<longleftrightarrow> Suc u \<le> m"
    using distinct_nth_in_drop [of "argsort a" m "Suc u"] m jm by simp
  have srt: "sorted (sort a)" by simp
  show "setitems (map (max lo) a) (drop (Suc u) (argsort a)) (sort a ! u) ! j =
        map (clip lo (sort a ! u)) a ! j"
  proof (cases "Suc u \<le> m")
    case True
    then have "sort a ! u \<le> sort a ! m"
      using sorted_nth_mono [OF srt, of u m] m by simp
    then show ?thesis using True j mem aj lo by (simp add: nth_setitems clip_def)
  next
    case False
    then have "sort a ! m \<le> sort a ! u"
      using sorted_nth_mono [OF srt, of m u] u by simp
    then show ?thesis using False j mem aj lo by (simp add: nth_setitems clip_def)
  qed
qed

lemma getitem_nat: "i < length xs \<Longrightarrow> getitem xs (int i) = Inr (xs ! i)"
  by (simp add: getitem_def)

lemma winsorize1D_nonempty:
  assumes "a \<noteq> []"
  shows "winsorize1D a =
         Inr (map (clip (sort a ! (length a div 100))
                        (sort a ! (length a - length a div 100 - 1))) a)"
proof -
  let ?n = "length a"
  let ?k = "?n div 100"
  let ?u = "?n - ?k - 1"
  from assms have n: "0 < ?n" by simp
  have k: "?k < ?n" using n by simp
  have u: "?u < ?n" using n by simp
  have ku: "?k \<le> ?u" using n by (rule low_le_up_index)
  have su: "Suc ?u = ?n - ?k" using n k by arith
  have iu: "int (?n - ?k) - 1 = int ?u" using n k by arith
  have srt: "sorted (sort a)" by simp
  have lohi: "sort a ! ?k \<le> sort a ! ?u"
    using sorted_nth_mono [OF srt ku] u by simp
  have g1: "getitem (argsort a) (int ?k) = Inr (argsort a ! ?k)"
    using k by (simp add: getitem_nat)
  have g2: "getitem a (int (argsort a ! ?k)) = Inr (sort a ! ?k)"
    using k by (simp add: getitem_nat nth_argsort_less nth_nth_argsort)
  have a1: "setitems a (take ?k (argsort a)) (sort a ! ?k) = map (max (sort a ! ?k)) a"
    using k by (rule setitems_take_argsort)
  have "getitem (argsort a) (int ?u) = Inr (argsort a ! ?u)"
    using u by (simp only: getitem_nat length_argsort)
  then have g3: "getitem (argsort a) (int (?n - ?k) - 1) = Inr (argsort a ! ?u)"
    by (simp only: iu)
  have g4: "getitem (map (max (sort a ! ?k)) a) (int (argsort a ! ?u)) = Inr (sort a ! ?u)"
    using u lohi by (simp add: getitem_nat nth_argsort_less nth_nth_argsort)
  have a2: "setitems (map (max (sort a ! ?k)) a) (drop (?n - ?k) (argsort a)) (sort a ! ?u) =
            map (clip (sort a ! ?k) (sort a ! ?u)) a"
    using setitems_drop_argsort [OF u lohi] su by simp
  show ?thesis
    unfolding winsorize1D_def Let_def int_of_limit_def
    by (simp only: g1 g2 a1 g3 g4 a2 sum.case)
qed

lemma winsorize1D_empty: "winsorize1D [] = Inl IndexError"
  by (simp add: winsorize1D_def getitem_def argsort_def int_of_limit_def)

section \<open>What \<open>load_data\<close> returns\<close>

lemma map_zip_upd_other:
  assumes "length vs = length rs" and "\<And>r v. f (upd r v) = f r"
  shows "map f (map (\<lambda>(r, v). upd r v) (zip rs vs)) = map f rs"
  using assms(1) by (induction rs vs rule: list_induct2') (simp_all add: assms(2))

lemma map_zip_upd_same:
  assumes "length vs = length rs" and "\<And>r v. f (upd r v) = v"
  shows "map f (map (\<lambda>(r, v). upd r v) (zip rs vs)) = vs"
  using assms(1) by (induction rs vs rule: list_induct2') (simp_all add: assms(2))

lemma length_shift1 [simp]: "length (shift1 xs) = length xs"
  by (cases xs rule: rev_cases) (simp_all add: shift1_def)

lemma length_pct_change [simp]: "length (pct_change xs) = length xs"
  by (simp add: pct_change_def)

lemma length_rolling_mean [simp]: "length (rolling_mean w xs) = length xs"
  by (simp add: rolling_mean_def)

lemma length_rolling_std [simp]: "length (rolling_std w xs) = length xs"
  by (simp add: rolling_std_def)

lemma length_winsorize1D: "winsorize1D a = Inr b \<Longrightarrow> length b = length a"
  by (cases "a = []") (auto simp: winsorize1D_empty winsorize1D_nonempty)

lemma setcol_Inr:
  "setcol upd name vs df = Inr df' \<longleftrightarrow>
     length vs = length (rows df) \<and>
     df' = \<lparr>columns = (if name \<in> set (columns df) then columns df else columns df @ [name]),
            rows = map (\<lambda>(r, v). upd r v) (zip (rows df) vs)\<rparr>"
  by (auto simp: setcol_def)

lemma bind_Inr: "bind m f = Inr y \<longleftrightarrow> (\<exists>x. m = Inr x \<and> f x = Inr y)"
  by (cases m) (simp_all add: bind_def)

lemma getcol_Inr: "getcol f name df = Inr xs \<longleftrightarrow> name \<in> set (columns df) \<and> xs = map f (rows df)"
  by (auto simp: getcol_def)

lemma assign_Daily_Return_Inr:
  "assign_Daily_Return df = Inr df' \<longleftrightarrow>
     ''Close'' \<in> set (columns df) \<and>
     df' = \<lparr>columns = (if ''Daily_Return'' \<in> set (columns df) then columns df else columns df @ [''Daily_Return'']),
            rows = map (\<lambda>(r, v). r\<lparr>Daily_Return := v\<rparr>) (zip (rows df) (pct_change (map Close (rows df))))\<rparr>"
  unfolding assign_Daily_Return_def bind_Inr getcol_Inr setcol_Inr by auto

lemma assign_MA5_Inr:
  "assign_MA5 df = Inr df' \<longleftrightarrow>
     ''Close'' \<in> set (columns df) \<and>
     df' = \<lparr>columns = (if ''MA5'' \<in> set (columns df) then columns df else columns df @ [''MA5'']),
            rows = map (\<lambda>(r, v). r\<lparr>MA5 := v\<rparr>) (zip (rows df) (rolling_mean 5 (map Fin (map Close (rows df)))))\<rparr>"
  unfolding assign_MA5_def bind_Inr getcol_Inr setcol_Inr by auto

lemma assign_MA20_Inr:
  "assign_MA20 df = Inr df' \<longleftrightarrow>
     ''Close'' \<in> set (columns df) \<and>
     df' = \<lparr>columns = (if ''MA20'' \<in> set (columns df) then columns df else columns df @ [''MA20'']),
            rows = map (\<lambda>(r, v). r\<lparr>MA20 := v\<rparr>) (zip (rows df) (rolling_mean 20 (map Fin (map Close (rows df)))))\<rparr>"
  unfolding assign_MA20_def bind_Inr getcol_Inr setcol_Inr by auto

lemma assign_MA50_Inr:
  "assign_MA50 df = Inr df' \<longleftrightarrow>
     ''Close'' \<in> set (columns df) \<and>
     df' = \<lparr>columns = (if ''MA50'' \<in> set (columns df) then columns df else columns df @ [''MA50'']),
            rows = map (\<lambda>(r, v). r\<lparr>MA50 := v\<rparr>) (zip (rows df) (rolling_mean 50 (map Fin (map Close (rows df)))))\<rparr>"
  unfolding assign_MA50_def bind_Inr getcol_Inr setcol_Inr by auto

lemma assign_Volume_Change_Inr:
  "assign_Volume_Change df = Inr df' \<longleftrightarrow>
     ''Volume'' \<in> set (columns df) \<and>
     df' = \<lparr>columns = (if ''Volume_Change'' \<in> set (columns df) then columns df else columns df @ [''Volume_Change'']),
            rows = map (\<lambda>(r, v). r\<lparr>Volume_Change := v\<rparr>) (zip (rows df) (pct_change (map real_of_int (map Volume (rows df)))))\<rparr>"
  unfolding assign_Volume_Change_def bind_Inr getcol_Inr setcol_Inr by auto

lemma assign_Rolling_Volatility_20_Inr:
  "assign_Rolling_Volatility_20 df = Inr df' \<longleftrightarrow>
     ''Daily_Return'' \<in> set (columns df) \<and>
     df' = \<lparr>columns = (if ''Rolling_Volatility_20'' \<in> set (columns df) then columns df else columns df @ [''Rolling_Volatility_20'']),
            rows = map (\<lambda>(r, v). r\<lparr>Rolling_Volatility_20 := v\<rparr>) (zip (rows df) (rolling_std 20 (map Daily_Return (rows df))))\<rparr>"
  unfolding assign_Rolling_Volatility_20_def bind_Inr getcol_Inr setcol_Inr by auto

lemma assign_Rolling_Mean_20_Inr:
  "assign_Rolling_Mean_20 df = Inr df' \<longleftrightarrow>
     ''Daily_Return'' \<in> set (columns df) \<and>
     df' = \<lparr>columns = (if ''Rolling_Mean_20'' \<in> set (columns df) then columns df else columns df @ [''Rolling_Mean_20'']),
            rows = map (\<lambda>(r, v). r\<lparr>Rolling_Mean_20 := v\<rparr>) (zip (rows df) (rolling_mean 20 (map Daily_Return (rows df))))\<rparr>"
  unfolding assign_Rolling_Mean_20_def bind_Inr getcol_Inr setcol_Inr by auto

lemma assign_Month_Inr:
  "assign_Month df = Inr df' \<longleftrightarrow>
     ''Date'' \<in> set (columns df) \<and>
     df' = \<lparr>columns = (if ''Month'' \<in> set (columns df) then columns df else columns df @ [''Month'']),
            rows = map (\<lambda>(r, v). r\<lparr>Month := v\<rparr>) (zip (rows df) (map month_of (map Date (rows df))))\<rparr>"
  unfolding assign_Month_def bind_Inr getcol_Inr setcol_Inr by auto

lemma assign_High_Low_Difference_Inr:
  "assign_High_Low_Difference df = Inr df' \<longleftrightarrow>
     ''High'' \<in> set (columns df) \<and> ''Low'' \<in> set (columns df) \<and>
     df' = \<lparr>columns = (if ''High_Low_Difference'' \<in> set (columns df) then columns df
                         else columns df @ [''High_Low_Difference'']),
            rows = map (\<lambda>(r, v). r\<lparr>High_Low_Difference := v\<rparr>)
                     (zip (rows df) (map (\<lambda>r. High r - Low r) (rows df)))\<rparr>"
proof -
  have "map (\<lambda>(h, l). h - l) (zip (map High rs) (map Low rs)) =
        map (\<lambda>r. High r - Low r) rs" for rs :: "row list"
    by (induction rs) simp_all
  then show ?thesis
    unfolding assign_High_Low_Difference_def bind_Inr getcol_Inr setcol_Inr by auto
qed

lemma to_datetime_Inr: "to_datetime ds = Inr ts \<longleftrightarrow> Unparseable \<notin> set ds \<and> ts = ds"
  by (auto simp: to_datetime_def)

lemma zip_restore_Date:
  "map (\<lambda>(r, v). r\<lparr>Date := v\<rparr>) (zip rs (map Date rs)) = rs"
  by (induction rs) simp_all

lemma assign_Date_Inr:
  "assign_Date df = Inr df' \<longleftrightarrow>
     ''Date'' \<in> set (columns df) \<and> Unparseable \<notin> Date ` set (rows df) \<and> df' = df"
  unfolding assign_Date_def bind_Inr getcol_Inr setcol_Inr to_datetime_Inr
  by (cases df) (auto simp: zip_restore_Date)

lemma dropna_Trades_Inr:
  "dropna_Trades df = Inr df' \<longleftrightarrow>
     ''Trades'' \<in> set (columns df) \<and>
     df' = \<lparr>columns = columns df, rows = filter (\<lambda>r. Trades r \<noteq> None) (rows df)\<rparr>"
  by (cases df) (auto simp: dropna_Trades_def)

lemma assign_Volume_Inr:
  "assign_Volume df = Inr df' \<longleftrightarrow>
     ''Volume'' \<in> set (columns df) \<and>
     (\<exists>ws. winsorize1D (map Volume (rows df)) = Inr ws \<and>
       df' = \<lparr>columns = columns df,
              rows = map (\<lambda>(r, v). r\<lparr>Volume := v\<rparr>) (zip (rows df) ws)\<rparr>)"
  unfolding assign_Volume_def bind_Inr getcol_Inr setcol_Inr
  using length_winsorize1D [of "map Volume (rows df)"] by auto

lemma new_row_sel [simp]:
  "Date (new_row i r) = Date r" "Open (new_row i r) = Open r" "High (new_row i r) = High r"
  "Low (new_row i r) = Low r" "Close (new_row i r) = Close r" "Volume (new_row i r) = Volume r"
  "Trades (new_row i r) = Trades r" "VWAP (new_row i r) = VWAP r" "index (new_row i r) = i"
  by (simp_all add: new_row_def)

lemma filter_new_rows:
  assumes "length ns = length ls" and "\<And>i r. f (new_row i r) = g r"
  shows "map f (filter (\<lambda>r. Trades r \<noteq> None) (map (\<lambda>(i, r). new_row i r) (zip ns ls))) =
         map g (filter (\<lambda>r. Trades r \<noteq> None) ls)"
  using assms(1)
  by (induction ns ls rule: list_induct2) (simp_all add: assms(2))

lemma filter_new_rows_index:
  "map index (filter (\<lambda>r. Trades r \<noteq> None)
                 (map (\<lambda>(i, r). new_row i r) (zip [0..<length ls] ls))) =
   filter (\<lambda>i. Trades (ls ! i) \<noteq> None) [0..<length ls]"
proof (induction ls rule: rev_induct)
  case Nil
  then show ?case by simp
next
  case (snoc x ls)
  have z: "zip [0..<length (ls @ [x])] (ls @ [x]) = zip [0..<length ls] ls @ [(length ls, x)]"
    by simp
  have f: "filter (\<lambda>i. Trades ((ls @ [x]) ! i) \<noteq> None) [0..<length ls] =
           filter (\<lambda>i. Trades (ls ! i) \<noteq> None) [0..<length ls]"
    by (rule filter_cong) (simp_all add: nth_append)
  show ?case
    unfolding z using snoc.IH f by simp
qed

lemma length_filter_new_rows:
  "length (filter (\<lambda>r. Trades r \<noteq> None) (map (\<lambda>(i, r). new_row i r) (zip [0..<length ls] ls))) =
   length (filter (\<lambda>r. Trades r \<noteq> None) ls)"
proof -
  have "map Close (filter (\<lambda>r. Trades r \<noteq> None) (map (\<lambda>(i, r). new_row i r) (zip [0..<length ls] ls))) =
        map Close (filter (\<lambda>r. Trades r \<noteq> None) ls)"
    by (rule filter_new_rows) simp_all
  then show ?thesis by (rule map_eq_imp_length_eq)
qed


lemmas step_Inr =
  assign_Date_Inr dropna_Trades_Inr assign_Volume_Inr assign_Daily_Return_Inr assign_MA5_Inr
  assign_MA20_Inr assign_MA50_Inr assign_Volume_Change_Inr assign_High_Low_Difference_Inr
  assign_Rolling_Volatility_20_Inr assign_Rolling_Mean_20_Inr assign_Month_Inr


lemma rows_read_csv:
  "rows (read_csv file) = map (\<lambda>(i, r). new_row i r) (zip [0..<length (lines file)] (lines file))"
  by (simp add: read_csv_def)

lemma map_new_rows:
  assumes "length ns = length ls" and "\<And>i r. f (new_row i r) = g r"
  shows "map f (map (\<lambda>(i, r). new_row i r) (zip ns ls)) = map g ls"
  using assms(1) by (induction ns ls rule: list_induct2) (simp_all add: assms(2))

lemma Date_read_csv: "Date ` set (rows (read_csv file)) = Date ` set (lines file)"
proof -
  have "map Date (rows (read_csv file)) = map Date (lines file)"
    unfolding rows_read_csv by (rule map_new_rows) simp_all
  then have "set (map Date (rows (read_csv file))) = set (map Date (lines file))" by simp
  then show ?thesis by (simp only: set_map)
qed

lemma load_data_columns:
  assumes "load_data file = Inr df"
  shows "''Date'' \<in> set (header file) \<and> ''Trades'' \<in> set (header file) \<and>
         ''Volume'' \<in> set (header file) \<and> ''Close'' \<in> set (header file) \<and>
         ''High'' \<in> set (header file) \<and> ''Low'' \<in> set (header file)"
    and "Unparseable \<notin> Date ` set (lines file)"
    and "map index (rows df) = filter (\<lambda>i. Trades (lines file ! i) \<noteq> None) [0..<length (lines file)]"
    and "map Date (rows df) = map Date (retained file)"
    and "map Open (rows df) = map Open (retained file)"
    and "map High (rows df) = map High (retained file)"
    and "map Low (rows df) = map Low (retained file)"
    and "map Close (rows df) = map Close (retained file)"
    and "map Trades (rows df) = map Trades (retained file)"
    and "map VWAP (rows df) = map VWAP (retained file)"
    and "winsorize1D (map Volume (retained file)) = Inr (map Volume (rows df))"
    and "map Daily_Return (rows df) = pct_change (map Close (retained file))"
    and "map MA5 (rows df) = rolling_mean 5 (map Fin (map Close (retained file)))"
    and "map MA20 (rows df) = rolling_mean 20 (map Fin (map Close (retained file)))"
    and "map MA50 (rows df) = rolling_mean 50 (map Fin (map Close (retained file)))"
    and "map Volume_Change (rows df) = pct_change (map real_of_int (map Volume (rows df)))"
    and "map High_Low_Difference (rows df) = map (\<lambda>r. High r - Low r) (retained file)"
    and "map Rolling_Volatility_20 (rows df) = rolling_std 20 (pct_change (map Close (retained file)))"
    and "map Rolling_Mean_20 (rows df) = rolling_mean 20 (pct_change (map Close (retained file)))"
    and "map Month (rows df) = map (\<lambda>r. month_of (Date r)) (retained file)"
proof -
  from assms obtain d1 d2 d3 d4 d5 d6 d7 d8 d9 d10 d11 where
    s1: "assign_Date (read_csv file) = Inr d1" and
    s2: "dropna_Trades d1 = Inr d2" and
    s3: "assign_Volume d2 = Inr d3" and
    s4: "assign_Daily_Return d3 = Inr d4" and
    s5: "assign_MA5 d4 = Inr d5" and
    s6: "assign_MA20 d5 = Inr d6" and
    s7: "assign_MA50 d6 = Inr d7" and
    s8: "assign_Volume_Change d7 = Inr d8" and
    s9: "assign_High_Low_Difference d8 = Inr d9" and
    s10: "assign_Rolling_Volatility_20 d9 = Inr d10" and
    s11: "assign_Rolling_Mean_20 d10 = Inr d11" and
    s12: "assign_Month d11 = Inr df"
    unfolding load_data_def bind_Inr by auto
  note t1 = s1 [unfolded assign_Date_Inr] and t2 = s2 [unfolded dropna_Trades_Inr]
    and t3 = s3 [unfolded assign_Volume_Inr] and t4 = s4 [unfolded assign_Daily_Return_Inr]
    and t5 = s5 [unfolded assign_MA5_Inr] and t6 = s6 [unfolded assign_MA20_Inr]
    and t7 = s7 [unfolded assign_MA50_Inr] and t8 = s8 [unfolded assign_Volume_Change_Inr]
    and t9 = s9 [unfolded assign_High_Low_Difference_Inr]
    and t10 = s10 [unfolded assign_Rolling_Volatility_20_Inr]
    and t11 = s11 [unfolded assign_Rolling_Mean_20_Inr] and t12 = s12 [unfolded assign_Month_Inr]
  from t3 obtain ws where
    w: "winsorize1D (map Volume (rows d2)) = Inr ws" and
    r3: "rows d3 = map (\<lambda>(r, v). r\<lparr>Volume := v\<rparr>) (zip (rows d2) ws)" and
    c3: "columns d3 = columns d2"
    by auto
  have c1: "columns d1 = header file" using t1 by (simp add: read_csv_def)
  have c2: "columns d2 = header file" using t2 c1 by simp
  have c4: "set (columns d4) \<subseteq> set (header file) \<union> {''Daily_Return''}"
    using t4 c3 c2 by auto
  have c5: "set (columns d5) \<subseteq> set (header file) \<union> {''Daily_Return'', ''MA5''}"
    using t5 c4 by auto
  have c6: "set (columns d6) \<subseteq> set (header file) \<union> {''Daily_Return'', ''MA5'', ''MA20''}"
    using t6 c5 by auto
  have c7: "set (columns d7) \<subseteq> set (header file) \<union> {''Daily_Return'', ''MA5'', ''MA20'', ''MA50''}"
    using t7 c6 by auto
  have c8: "set (columns d8) \<subseteq>
              set (header file) \<union> {''Daily_Return'', ''MA5'', ''MA20'', ''MA50'', ''Volume_Change''}"
    using t8 c7 by auto
  show "''Date'' \<in> set (header file) \<and> ''Trades'' \<in> set (header file) \<and>
         ''Volume'' \<in> set (header file) \<and> ''Close'' \<in> set (header file) \<and>
         ''High'' \<in> set (header file) \<and> ''Low'' \<in> set (header file)"
    using t1 t2 t3 t4 t9 c1 c2 c3 c8 by (auto simp: read_csv_def)
  have r1: "rows d1 = rows (read_csv file)" using t1 by simp
  show "Unparseable \<notin> Date ` set (lines file)"
    using t1 by (simp only: Date_read_csv) simp
  have r2: "rows d2 = filter (\<lambda>r. Trades r \<noteq> None) (rows (read_csv file))"
    using t2 r1 by simp
  have n2: "length (rows d2) = length (retained file)"
    unfolding r2 rows_read_csv by (rule length_filter_new_rows)
  have lw: "length ws = length (rows d2)" using length_winsorize1D [OF w] by simp
  have r4: "rows d4 = map (\<lambda>(r, v). r\<lparr>Daily_Return := v\<rparr>) (zip (rows d3) (pct_change (map Close (rows d3))))"
    using t4 by simp
  have r5: "rows d5 = map (\<lambda>(r, v). r\<lparr>MA5 := v\<rparr>) (zip (rows d4) (rolling_mean 5 (map Fin (map Close (rows d4)))))"
    using t5 by simp
  have r6: "rows d6 = map (\<lambda>(r, v). r\<lparr>MA20 := v\<rparr>) (zip (rows d5) (rolling_mean 20 (map Fin (map Close (rows d5)))))"
    using t6 by simp
  have r7: "rows d7 = map (\<lambda>(r, v). r\<lparr>MA50 := v\<rparr>) (zip (rows d6) (rolling_mean 50 (map Fin (map Close (rows d6)))))"
    using t7 by simp
  have r8: "rows d8 = map (\<lambda>(r, v). r\<lparr>Volume_Change := v\<rparr>) (zip (rows d7) (pct_change (map real_of_int (map Volume (rows d7)))))"
    using t8 by simp
  have r9: "rows d9 = map (\<lambda>(r, v). r\<lparr>High_Low_Difference := v\<rparr>) (zip (rows d8) (map (\<lambda>r. High r - Low r) (rows d8)))"
    using t9 by simp
  have r10: "rows d10 = map (\<lambda>(r, v). r\<lparr>Rolling_Volatility_20 := v\<rparr>) (zip (rows d9) (rolling_std 20 (map Daily_Return (rows d9))))"
    using t10 by simp
  have r11: "rows d11 = map (\<lambda>(r, v). r\<lparr>Rolling_Mean_20 := v\<rparr>) (zip (rows d10) (rolling_mean 20 (map Daily_Return (rows d10))))"
    using t11 by simp
  have r12: "rows df = map (\<lambda>(r, v). r\<lparr>Month := v\<rparr>) (zip (rows d11) (map month_of (map Date (rows d11))))"
    using t12 by simp
  note rs = r12 r11 r10 r9 r8 r7 r6 r5 r4 r3
  have l3: "length (rows d3) = length (rows d2)" by (simp add: r3 lw)
  have l4: "length (rows d4) = length (rows d2)" by (simp add: r4 l3)
  have l5: "length (rows d5) = length (rows d2)" by (simp add: r5 l4)
  have l6: "length (rows d6) = length (rows d2)" by (simp add: r6 l5)
  have l7: "length (rows d7) = length (rows d2)" by (simp add: r7 l6)
  have l8: "length (rows d8) = length (rows d2)" by (simp add: r8 l7)
  have l9: "length (rows d9) = length (rows d2)" by (simp add: r9 l8)
  have l10: "length (rows d10) = length (rows d2)" by (simp add: r10 l9)
  have l11: "length (rows d11) = length (rows d2)" by (simp add: r11 l10)
  note ls = l3 l4 l5 l6 l7 l8 l9 l10 l11 lw
  have k12: "map f (rows df) = map f (rows d11)" if "\<And>r v. f (r\<lparr>Month := v\<rparr>) = f r"
    for f :: "row \<Rightarrow> 'b"
    unfolding r12 by (rule map_zip_upd_other) (simp_all add: l11 that)
  have m12: "map Month (rows df) = map month_of (map Date (rows d11))"
    unfolding r12 by (rule map_zip_upd_same) (simp_all add: l11)
  have k11: "map f (rows d11) = map f (rows d10)" if "\<And>r v. f (r\<lparr>Rolling_Mean_20 := v\<rparr>) = f r"
    for f :: "row \<Rightarrow> 'b"
    unfolding r11 by (rule map_zip_upd_other) (simp_all add: l10 that)
  have m11: "map Rolling_Mean_20 (rows d11) = rolling_mean 20 (map Daily_Return (rows d10))"
    unfolding r11 by (rule map_zip_upd_same) (simp_all add: l10)
  have k10: "map f (rows d10) = map f (rows d9)" if "\<And>r v. f (r\<lparr>Rolling_Volatility_20 := v\<rparr>) = f r"
    for f :: "row \<Rightarrow> 'b"
    unfolding r10 by (rule map_zip_upd_other) (simp_all add: l9 that)
  have m10: "map Rolling_Volatility_20 (rows d10) = rolling_std 20 (map Daily_Return (rows d9))"
    unfolding r10 by (rule map_zip_upd_same) (simp_all add: l9)
  have k9: "map f (rows d9) = map f (rows d8)" if "\<And>r v. f (r\<lparr>High_Low_Difference := v\<rparr>) = f r"
    for f :: "row \<Rightarrow> 'b"
    unfolding r9 by (rule map_zip_upd_other) (simp_all add: l8 that)
  have m9: "map High_Low_Difference (rows d9) = map (\<lambda>r. High r - Low r) (rows d8)"
    unfolding r9 by (rule map_zip_upd_same) (simp_all add: l8)
  have k8: "map f (rows d8) = map f (rows d7)" if "\<And>r v. f (r\<lparr>Volume_Change := v\<rparr>) = f r"
    for f :: "row \<Rightarrow> 'b"
    unfolding r8 by (rule map_zip_upd_other) (simp_all add: l7 that)
  have m8: "map Volume_Change (rows d8) = pct_change (map real_of_int (map Volume (rows d7)))"
    unfolding r8 by (rule map_zip_upd_same) (simp_all add: l7)
  have k7: "map f (rows d7) = map f (rows d6)" if "\<And>r v. f (r\<lparr>MA50 := v\<rparr>) = f r"
    for f :: "row \<Rightarrow> 'b"
    unfolding r7 by (rule map_zip_upd_other) (simp_all add: l6 that)
  have m7: "map MA50 (rows d7) = rolling_mean 50 (map Fin (map Close (rows d6)))"
    unfolding r7 by (rule map_zip_upd_same) (simp_all add: l6)
  have k6: "map f (rows d6) = map f (rows d5)" if "\<And>r v. f (r\<lparr>MA20 := v\<rparr>) = f r"
    for f :: "row \<Rightarrow> 'b"
    unfolding r6 by (rule map_zip_upd_other) (simp_all add: l5 that)
  have m6: "map MA20 (rows d6) = rolling_mean 20 (map Fin (map Close (rows d5)))"
    unfolding r6 by (rule map_zip_upd_same) (simp_all add: l5)
  have k5: "map f (rows d5) = map f (rows d4)" if "\<And>r v. f (r\<lparr>MA5 := v\<rparr>) = f r"
    for f :: "row \<Rightarrow> 'b"
    unfolding r5 by (rule map_zip_upd_other) (simp_all add: l4 that)
  have m5: "map MA5 (rows d5) = rolling_mean 5 (map Fin (map Close (rows d4)))"
    unfolding r5 by (rule map_zip_upd_same) (simp_all add: l4)
  have k4: "map f (rows d4) = map f (rows d3)" if "\<And>r v. f (r\<lparr>Daily_Return := v\<rparr>) = f r"
    for f :: "row \<Rightarrow> 'b"
    unfolding r4 by (rule map_zip_upd_other) (simp_all add: l3 that)
  have m4: "map Daily_Return (rows d4) = pct_change (map Close (rows d3))"
    unfolding r4 by (rule map_zip_upd_same) (simp_all add: l3)
  have k3: "map f (rows d3) = map f (rows d2)" if "\<And>r v. f (r\<lparr>Volume := v\<rparr>) = f r"
    for f :: "row \<Rightarrow> 'b"
    unfolding r3 by (rule map_zip_upd_other) (simp_all add: lw that)
  have m3: "map Volume (rows d3) = ws"
    unfolding r3 by (rule map_zip_upd_same) (simp_all add: lw)
  note ks = k12 k11 k10 k9 k8 k7 k6 k5 k4 k3
  note ms = m12 m11 m10 m9 m8 m7 m6 m5 m4 m3
  have raw: "map f (rows d2) = map g (retained file)" if "\<And>i r. f (new_row i r) = g r"
    for f :: "row \<Rightarrow> 'b" and g
    unfolding r2 rows_read_csv by (rule filter_new_rows) (simp_all add: that)
  show "map index (rows df) = filter (\<lambda>i. Trades (lines file ! i) \<noteq> None) [0..<length (lines file)]"
  proof -
    have "map index (rows df) = map index (rows d2)" by (simp add: ks)
    also have "\<dots> = filter (\<lambda>i. Trades (lines file ! i) \<noteq> None) [0..<length (lines file)]"
      unfolding r2 rows_read_csv by (rule filter_new_rows_index)
    finally show ?thesis .
  qed
  show "map Date (rows df) = map Date (retained file)"
    by (simp add: ks raw)
  show "map Open (rows df) = map Open (retained file)"
    by (simp add: ks raw)
  show "map High (rows df) = map High (retained file)"
    by (simp add: ks raw)
  show "map Low (rows df) = map Low (retained file)"
    by (simp add: ks raw)
  show "map Close (rows df) = map Close (retained file)"
    by (simp add: ks raw)
  show "map Trades (rows df) = map Trades (retained file)"
    by (simp add: ks raw)
  show "map VWAP (rows df) = map VWAP (retained file)"
    by (simp add: ks raw)
  have v2: "map Volume (rows d2) = map Volume (retained file)"
    by (simp add: raw)
  have v3: "map Volume (rows df) = ws" by (simp add: ks ms)
  show "winsorize1D (map Volume (retained file)) = Inr (map Volume (rows df))"
    using w by (simp only: v2 v3)
  show dr: "map Daily_Return (rows df) = pct_change (map Close (retained file))"
    by (simp add: ks ms raw)
  show "map MA5 (rows df) = rolling_mean 5 (map Fin (map Close (retained file)))"
    by (simp add: ks ms raw)
  show "map MA20 (rows df) = rolling_mean 20 (map Fin (map Close (retained file)))"
    by (simp add: ks ms raw)
  show "map MA50 (rows df) = rolling_mean 50 (map Fin (map Close (retained file)))"
    by (simp add: ks ms raw)
  show "map Volume_Change (rows df) = pct_change (map real_of_int (map Volume (rows df)))"
    by (simp add: ks ms)
  show "map High_Low_Difference (rows df) = map (\<lambda>r. High r - Low r) (retained file)"
    by (simp add: ks ms raw)
  show "map Rolling_Volatility_20 (rows df) = rolling_std 20 (pct_change (map Close (retained file)))"
    by (simp add: ks ms raw)
  show "map Rolling_Mean_20 (rows df) = rolling_mean 20 (pct_change (map Close (retained file)))"
    by (simp add: ks ms raw)
  show "map Month (rows df) = map (\<lambda>r. month_of (Date r)) (retained file)"
    by (simp add: ks ms raw)
qed

lemma nth_shift1:
  "i < length xs \<Longrightarrow> shift1 xs ! i = (if i = 0 then None else Some (xs ! (i - 1)))"
  by (cases i) (auto simp: shift1_def nth_butlast)

lemma nth_pct_change:
  "i < length xs \<Longrightarrow>
   pct_change xs ! i = (if i = 0 then NaN else fsub1 (fdiv (xs ! i) (xs ! (i - 1))))"
  by (simp add: pct_change_def nth_shift1)

lemma observations_map_Fin [simp]: "observations (map Fin xs) = xs"
  by (induction xs) simp_all

lemma window_map: "window w (map f xs) i = map f (window w xs i)"
  by (simp add: window_def take_map drop_map)

lemma length_window: "i < length xs \<Longrightarrow> length (window w xs i) = min w (Suc i)"
  by (auto simp: window_def)

lemma sum_list_drop_take:
  assumes "b \<le> length xs"
  shows "sum_list (drop a (take b xs)) = (\<Sum>k = a..<b. (xs ! k :: real))"
proof (cases "a \<le> b")
  case True
  have "sum_list (drop a (take b xs)) = (\<Sum>j = 0..<b - a. drop a (take b xs) ! j)"
    using assms by (simp add: sum_list_sum_nth)
  also have "\<dots> = (\<Sum>j = 0..<b - a. xs ! (j + a))"
    using assms by (intro sum.cong) (simp_all add: add.commute)
  also have "\<dots> = (\<Sum>k = 0 + a..<(b - a) + a. xs ! k)"
    by (simp only: sum.shift_bounds_nat_ivl)
  finally show ?thesis using True by simp
next
  case False
  then show ?thesis by simp
qed

lemma sum_list_window:
  "i < length xs \<Longrightarrow> sum_list (window w xs i) = (\<Sum>k = Suc i - w..i. (xs ! k :: real))"
  by (simp add: window_def sum_list_drop_take atLeastLessThanSuc_atLeastAtMost)

lemma nth_rolling_mean_Fin:
  assumes "i < length xs" and "0 < w"
  shows "rolling_mean w (map Fin xs) ! i =
         (if Suc i < w then NaN else Fin ((\<Sum>k = Suc i - w..i. xs ! k) / real w))"
proof -
  have len: "length (window w xs i) = min w (Suc i)"
    using assms(1) by (rule length_window)
  have "rolling_mean w (map Fin xs) ! i = calc_mean w (window w xs i)"
    using assms(1) by (simp add: rolling_mean_def window_map)
  also have "\<dots> = (if Suc i < w then NaN else Fin (sum_list (window w xs i) / real w))"
    using assms(2) by (simp add: calc_mean_def Let_def len min_def)
  finally show ?thesis using assms(1) by (simp add: sum_list_window)
qed


lemma assign_Daily_Return_ok:
  assumes "''Close'' \<in> set (columns d)"
  shows "\<exists>d'. assign_Daily_Return d = Inr d' \<and> set (columns d) \<subseteq> set (columns d')"
  using assms unfolding assign_Daily_Return_Inr by auto

lemma assign_MA5_ok:
  assumes "''Close'' \<in> set (columns d)"
  shows "\<exists>d'. assign_MA5 d = Inr d' \<and> set (columns d) \<subseteq> set (columns d')"
  using assms unfolding assign_MA5_Inr by auto

lemma assign_MA20_ok:
  assumes "''Close'' \<in> set (columns d)"
  shows "\<exists>d'. assign_MA20 d = Inr d' \<and> set (columns d) \<subseteq> set (columns d')"
  using assms unfolding assign_MA20_Inr by auto

lemma assign_MA50_ok:
  assumes "''Close'' \<in> set (columns d)"
  shows "\<exists>d'. assign_MA50 d = Inr d' \<and> set (columns d) \<subseteq> set (columns d')"
  using assms unfolding assign_MA50_Inr by auto

lemma assign_Volume_Change_ok:
  assumes "''Volume'' \<in> set (columns d)"
  shows "\<exists>d'. assign_Volume_Change d = Inr d' \<and> set (columns d) \<subseteq> set (columns d')"
  using assms unfolding assign_Volume_Change_Inr by auto

lemma assign_High_Low_Difference_ok:
  assumes "''High'' \<in> set (columns d)" and "''Low'' \<in> set (columns d)"
  shows "\<exists>d'. assign_High_Low_Difference d = Inr d' \<and> set (columns d) \<subseteq> set (columns d')"
  using assms unfolding assign_High_Low_Difference_Inr by auto

lemma assign_Rolling_Volatility_20_ok:
  assumes "''Daily_Return'' \<in> set (columns d)"
  shows "\<exists>d'. assign_Rolling_Volatility_20 d = Inr d' \<and> set (columns d) \<subseteq> set (columns d')"
  using assms unfolding assign_Rolling_Volatility_20_Inr by auto

lemma assign_Rolling_Mean_20_ok:
  assumes "''Daily_Return'' \<in> set (columns d)"
  shows "\<exists>d'. assign_Rolling_Mean_20 d = Inr d' \<and> set (columns d) \<subseteq> set (columns d')"
  using assms unfolding assign_Rolling_Mean_20_Inr by auto

lemma assign_Month_ok:
  assumes "''Date'' \<in> set (columns d)"
  shows "\<exists>d'. assign_Month d = Inr d' \<and> set (columns d) \<subseteq> set (columns d')"
  using assms unfolding assign_Month_Inr by auto

lemma load_data_succeeds:
  assumes "loadable file" and "retained file \<noteq> []"
  shows "\<exists>df. load_data file = Inr df"
proof -
  let ?d2 = "\<lparr>columns = header file,
              rows = filter (\<lambda>r. Trades r \<noteq> None) (rows (read_csv file))\<rparr>"
  have "length (rows ?d2) = length (retained file)"
    by (simp only: dataframe.simps rows_read_csv length_filter_new_rows)
  with assms(2) have "map Volume (rows ?d2) \<noteq> []" by auto
  then obtain ws where w: "winsorize1D (map Volume (rows ?d2)) = Inr ws"
    using winsorize1D_nonempty by blast
  have h: "''Date'' \<in> set (header file)" "''Trades'' \<in> set (header file)"
    "''Volume'' \<in> set (header file)"
    "''Close'' \<in> set (header file)" "''High'' \<in> set (header file)" "''Low'' \<in> set (header file)"
    "Unparseable \<notin> Date ` set (lines file)"
    using assms(1) by (simp_all add: loadable_def)
  have s1: "assign_Date (read_csv file) = Inr (read_csv file)"
    unfolding assign_Date_Inr using h(1,7)
    by (simp only: Date_read_csv) (simp add: read_csv_def)
  have s2: "dropna_Trades (read_csv file) = Inr ?d2"
    unfolding dropna_Trades_Inr using h(2) by (simp add: read_csv_def)
  have "\<exists>d. assign_Volume ?d2 = Inr d \<and> columns d = header file"
    unfolding assign_Volume_Inr using h(3) w by simp
  then obtain d3 where s3: "assign_Volume ?d2 = Inr d3" and c3: "columns d3 = header file"
    by blast
  have p3: "''Date'' \<in> set (columns d3)" "''Volume'' \<in> set (columns d3)"
    "''Close'' \<in> set (columns d3)" "''High'' \<in> set (columns d3)" "''Low'' \<in> set (columns d3)"
    using h c3 by simp_all
  from assign_Daily_Return_ok [OF p3(3)]
  obtain d4 where s4: "assign_Daily_Return d3 = Inr d4" and c4: "set (columns d3) \<subseteq> set (columns d4)"
    by blast
  have dr4: "''Daily_Return'' \<in> set (columns d4)"
    using s4 unfolding assign_Daily_Return_Inr by auto
  note p4 = rev_subsetD [OF p3(1) c4] rev_subsetD [OF p3(2) c4] rev_subsetD [OF p3(3) c4]
    rev_subsetD [OF p3(4) c4] rev_subsetD [OF p3(5) c4] dr4
  from assign_MA5_ok [OF p4(3)]
  obtain d5 where s5: "assign_MA5 d4 = Inr d5" and c5: "set (columns d4) \<subseteq> set (columns d5)"
    by blast
  note p5 = rev_subsetD [OF p4(1) c5] rev_subsetD [OF p4(2) c5] rev_subsetD [OF p4(3) c5]
    rev_subsetD [OF p4(4) c5] rev_subsetD [OF p4(5) c5] rev_subsetD [OF p4(6) c5]
  from assign_MA20_ok [OF p5(3)]
  obtain d6 where s6: "assign_MA20 d5 = Inr d6" and c6: "set (columns d5) \<subseteq> set (columns d6)"
    by blast
  note p6 = rev_subsetD [OF p5(1) c6] rev_subsetD [OF p5(2) c6] rev_subsetD [OF p5(3) c6]
    rev_subsetD [OF p5(4) c6] rev_subsetD [OF p5(5) c6] rev_subsetD [OF p5(6) c6]
  from assign_MA50_ok [OF p6(3)]
  obtain d7 where s7: "assign_MA50 d6 = Inr d7" and c7: "set (columns d6) \<subseteq> set (columns d7)"
    by blast
  note p7 = rev_subsetD [OF p6(1) c7] rev_subsetD [OF p6(2) c7] rev_subsetD [OF p6(3) c7]
    rev_subsetD [OF p6(4) c7] rev_subsetD [OF p6(5) c7] rev_subsetD [OF p6(6) c7]
  from assign_Volume_Change_ok [OF p7(2)]
  obtain d8 where s8: "assign_Volume_Change d7 = Inr d8" and c8: "set (columns d7) \<subseteq> set (columns d8)"
    by blast
  note p8 = rev_subsetD [OF p7(1) c8] rev_subsetD [OF p7(2) c8] rev_subsetD [OF p7(3) c8]
    rev_subsetD [OF p7(4) c8] rev_subsetD [OF p7(5) c8] rev_subsetD [OF p7(6) c8]
  from assign_High_Low_Difference_ok [OF p8(4) p8(5)]
  obtain d9 where s9: "assign_High_Low_Difference d8 = Inr d9" and c9: "set (columns d8) \<subseteq> set (columns d9)"
    by blast
  note p9 = rev_subsetD [OF p8(1) c9] rev_subsetD [OF p8(2) c9] rev_subsetD [OF p8(3) c9]
    rev_subsetD [OF p8(4) c9] rev_subsetD [OF p8(5) c9] rev_subsetD [OF p8(6) c9]
  from assign_Rolling_Volatility_20_ok [OF p9(6)]
  obtain d10 where s10: "assign_Rolling_Volatility_20 d9 = Inr d10" and c10: "set (columns d9) \<subseteq> set (columns d10)"
    by blast
  note p10 = rev_subsetD [OF p9(1) c10] rev_subsetD [OF p9(2) c10] rev_subsetD [OF p9(3) c10]
    rev_subsetD [OF p9(4) c10] rev_subsetD [OF p9(5) c10] rev_subsetD [OF p9(6) c10]
  from assign_Rolling_Mean_20_ok [OF p10(6)]
  obtain d11 where s11: "assign_Rolling_Mean_20 d10 = Inr d11" and c11: "set (columns d10) \<subseteq> set (columns d11)"
    by blast
  note p11 = rev_subsetD [OF p10(1) c11] rev_subsetD [OF p10(2) c11] rev_subsetD [OF p10(3) c11]
    rev_subsetD [OF p10(4) c11] rev_subsetD [OF p10(5) c11] rev_subsetD [OF p10(6) c11]
  from assign_Month_ok [OF p11(1)]
  obtain d12 where s12: "assign_Month d11 = Inr d12" and c12: "set (columns d11) \<subseteq> set (columns d12)"
    by blast
  note p12 = rev_subsetD [OF p11(1) c12] rev_subsetD [OF p11(2) c12] rev_subsetD [OF p11(3) c12]
    rev_subsetD [OF p11(4) c12] rev_subsetD [OF p11(5) c12] rev_subsetD [OF p11(6) c12]
  have "load_data file = Inr d12"
    unfolding load_data_def
    by (simp only: bind_def sum.case s1 s2 s3 s4 s5 s6 s7 s8 s9 s10 s11 s12)
  then show ?thesis ..
qed

lemma example_file_loads: "\<exists>df. load_data example_file = Inr df"
  by (rule load_data_succeeds) (simp_all add: loadable_def example_file_def example_row_def)

lemma load_data_nonempty:
  assumes "load_data file = Inr df"
  shows "rows df \<noteq> []" and "retained file \<noteq> []"
proof -
  have w: "winsorize1D (map Volume (retained file)) = Inr (map Volume (rows df))"
    using assms by (rule load_data_columns)
  then show "retained file \<noteq> []" by (auto simp: winsorize1D_empty)
  then show "rows df \<noteq> []" using length_winsorize1D [OF w] by auto
qed

lemma load_data_length:
  assumes "load_data file = Inr df"
  shows "length (rows df) = length (retained file)"
  using load_data_columns(8) [OF assms] by (rule map_eq_imp_length_eq)

section \<open>Auxiliary facts for the claims\<close>

lemma nth_col: "i < length rs \<Longrightarrow> f (rs ! i) = map f rs ! i"
  by simp

lemma winsorize1D_small:
  assumes "vs \<noteq> []" and "length vs < 100"
  shows "winsorize1D vs = Inr vs"
proof -
  have k: "length vs div 100 = 0" using assms(2) by simp
  have srt: "sorted (sort vs)" by simp
  have "clip (sort vs ! 0) (sort vs ! (length vs - 1)) v = v" if "v \<in> set vs" for v
  proof -
    from that have "v \<in> set (sort vs)" by simp
    then have "\<exists>m<length (sort vs). sort vs ! m = v"
      by (simp only: in_set_conv_nth)
    then obtain m where m: "m < length vs" and v: "sort vs ! m = v"
      by auto
    have "sort vs ! 0 \<le> sort vs ! m"
      using sorted_nth_mono [OF srt, of 0 m] m by simp
    moreover have "sort vs ! m \<le> sort vs ! (length vs - 1)"
      using sorted_nth_mono [OF srt, of m "length vs - 1"] m by simp
    ultimately show ?thesis using v by (simp add: clip_def)
  qed
  then have "map (clip (sort vs ! 0) (sort vs ! (length vs - 1))) vs = vs"
    by (simp add: map_idI)
  then show ?thesis using winsorize1D_nonempty [OF assms(1)] k by simp
qed

lemma untraded_file_fails: "load_data untraded_file = Inl IndexError"
  by (simp add: load_data_def bind_def read_csv_def assign_Date_def getcol_def setcol_def
      to_datetime_def dropna_Trades_def assign_Volume_def winsorize1D_empty
      untraded_file_def example_row_def new_row_def)

lemma sort_nth_below_unique_max:
  fixes vs :: "int list"
  assumes j: "j < length vs"
    and mx: "\<forall>i<length vs. i \<noteq> j \<longrightarrow> vs ! i < vs ! j"
    and m: "Suc m < length vs"
  shows "sort vs ! m < vs ! j"
proof -
  let ?a = "argsort vs ! m" and ?b = "argsort vs ! Suc m"
  have m': "m < length vs" using m by simp
  have ab: "?a \<noteq> ?b"
    using m m' by (simp add: nth_eq_iff_index_eq)
  have a: "?a < length vs" and b: "?b < length vs"
    using m m' by (simp_all add: nth_argsort_less)
  have sa: "sort vs ! m = vs ! ?a" using nth_nth_argsort [OF m'] by simp
  have sb: "sort vs ! Suc m = vs ! ?b" using nth_nth_argsort [OF m] by simp
  have le: "sort vs ! m \<le> sort vs ! Suc m"
    using sorted_nth_mono [of "sort vs" m "Suc m"] m by simp
  show ?thesis
  proof (cases "?a = j")
    case False
    then show ?thesis using mx a sa by simp
  next
    case True
    then have "?b \<noteq> j" using ab by simp
    then have "vs ! ?b < vs ! j" using mx b by simp
    then show ?thesis using le sa sb True by simp
  qed
qed

lemma rank_99: "0 < n \<Longrightarrow> (99 * n + 99) div 100 - 1 = n - n div 100 - (1::nat)"
  by arith

lemma rank_1: "(1 * n + 99) div 100 - 1 \<le> n div (100::nat)"
  by arith

lemma retained_all:
  "\<forall>r\<in>set (lines file). Trades r \<noteq> None \<Longrightarrow> retained file = lines file"
  by simp

lemma clip_map_bounds:
  "lo' \<le> lo \<Longrightarrow> lo \<le> hi \<Longrightarrow> \<forall>v\<in>set (map (clip lo hi) xs). lo' \<le> v \<and> v \<le> hi"
  by (auto simp: clip_def)

lemma outlier_file_loads: "\<exists>df. load_data outlier_file = Inr df"
  by (rule load_data_succeeds)
     (auto simp: loadable_def outlier_file_def example_row_def filter_empty_conv)

lemma pct_change_replicate:
  "pct_change (replicate (Suc n) c) = NaN # replicate n (fsub1 (fdiv c c))"
proof (rule nth_equalityI)
  show "length (pct_change (replicate (Suc n) c)) = length (NaN # replicate n (fsub1 (fdiv c c)))"
    by simp
next
  fix i assume "i < length (pct_change (replicate (Suc n) c))"
  then have i: "i < length (replicate (Suc n) c)" by simp
  then have i': "i < Suc n" by simp
  have a: "replicate (Suc n) c ! i = c" using i' by (rule nth_replicate)
  have b: "replicate (Suc n) c ! (i - 1) = c" using i' by (intro nth_replicate) simp
  have "pct_change (replicate (Suc n) c) ! i = (if i = 0 then NaN else fsub1 (fdiv c c))"
    unfolding nth_pct_change [OF i] by (simp only: a b)
  also have "\<dots> = (NaN # replicate n (fsub1 (fdiv c c))) ! i"
    using i' by (cases i) simp_all
  finally show "pct_change (replicate (Suc n) c) ! i = (NaN # replicate n (fsub1 (fdiv c c))) ! i" .
qed

lemma observations_replicate_Fin: "observations (replicate n (Fin x)) = replicate n x"
  by (induction n) simp_all

lemma nth_rolling_mean_replicate:
  assumes "i < n" and "0 < w"
  shows "rolling_mean w (map Fin (replicate n c)) ! i = (if Suc i < w then NaN else Fin c)"
proof -
  have i: "i < length (replicate n c)" using assms(1) by simp
  have "(\<Sum>k = Suc i - w..i. replicate n c ! k) = (\<Sum>k = Suc i - w..i. c)"
    using assms(1) by (intro sum.cong) simp_all
  also have "\<dots> = real (Suc i - (Suc i - w)) * c" by simp
  finally have s: "\<not> Suc i < w \<Longrightarrow> (\<Sum>k = Suc i - w..i. replicate n c ! k) = real w * c"
    by simp
  show ?thesis
    unfolding nth_rolling_mean_Fin [OF i assms(2)] using s assms(2) by simp
qed

lemma window_flat_returns:
  assumes "i \<le> m"
  shows "window 20 (NaN # replicate m (Fin z)) i =
         (if i < 20 then NaN # replicate i (Fin z) else replicate 20 (Fin z))"
proof (cases "i < 20")
  case True
  then have "Suc i - 20 = 0" by simp
  then show ?thesis using True assms by (simp add: window_def min_def)
next
  case False
  then have "Suc i - 20 = Suc (i - 20)" by simp
  then show ?thesis using False assms by (simp add: window_def min_def)
qed

lemma calc_std_zeros: "calc_std 20 1 (replicate n 0) = (if n < 20 then NaN else Fin 0)"
  by (simp add: calc_std_def Let_def sum_list_replicate)

lemma nth_rolling_std_flat:
  assumes "i \<le> m"
  shows "rolling_std 20 (NaN # replicate m (Fin 0)) ! i = (if i < 20 then NaN else Fin 0)"
proof -
  have "rolling_std 20 (NaN # replicate m (Fin 0)) ! i =
        calc_std 20 1 (observations (window 20 (NaN # replicate m (Fin 0)) i))"
    using assms by (simp add: rolling_std_def del: upt_Suc)
  also have "\<dots> = (if i < 20 then NaN else Fin 0)"
  proof (cases "i < 20")
    case True
    have "calc_std 20 1 (observations (NaN # replicate i (Fin 0))) = NaN"
      using True by (simp only: observations.simps observations_replicate_Fin calc_std_zeros if_True)
    then show ?thesis using True by (simp only: window_flat_returns [OF assms] if_True)
  next
    case False
    have "calc_std 20 1 (observations (replicate 20 (Fin 0))) = Fin 0"
      by (simp only: observations_replicate_Fin calc_std_zeros) simp
    then show ?thesis using False by (simp only: window_flat_returns [OF assms] if_False)
  qed
  finally show ?thesis .
qed

lemma map_constant: "\<forall>x\<in>set xs. f x = c \<Longrightarrow> map f xs = replicate (length xs) c"
  by (induction xs) simp_all

lemma filter_with_dates:
  assumes "length ds = length rs" and "\<And>r d. f (r\<lparr>Date := d\<rparr>) = f r"
  shows "map f (filter (\<lambda>r. Trades r \<noteq> None) (map (\<lambda>(r, d). r\<lparr>Date := d\<rparr>) (zip rs ds))) =
         map f (filter (\<lambda>r. Trades r \<noteq> None) rs)"
  using assms(1) by (induction ds rs rule: list_induct2) (simp_all add: assms(2))

lemma index_with_dates:
  assumes "length ds = length (rs :: raw_row list)"
  shows "filter (\<lambda>i. Trades (map (\<lambda>(r, d). r\<lparr>Date := d\<rparr>) (zip rs ds) ! i) \<noteq> None) [0..<length rs] =
         filter (\<lambda>i. Trades (rs ! i) \<noteq> None) [0..<length rs]"
  using assms by (intro filter_cong) simp_all

lemma loadable_with_dates:
  assumes "loadable file" and "length ds = length (lines file)" and "Unparseable \<notin> set ds"
  shows "loadable (with_dates ds file)"
proof -
  have "map Date (map (\<lambda>(r, d). r\<lparr>Date := d\<rparr>) (zip (lines file) ds)) = ds"
    using assms(2) by (intro map_zip_upd_same) simp_all
  then have "set (map Date (lines (with_dates ds file))) = set ds"
    by (simp add: with_dates_def)
  then have "Date ` set (lines (with_dates ds file)) = set ds" by (simp only: set_map)
  with assms(1,3) show ?thesis by (simp add: loadable_def with_dates_def)
qed

lemma load_data_loadable:
  assumes "load_data file = Inr df"
  shows "loadable file"
  using load_data_columns(1,2) [OF assms] by (simp add: loadable_def)

lemma snd_ret [simp]: "snd (ret x d) = d"
  by (simp add: ret_def)

lemma snd_on_copy [simp]: "snd (on_copy r d) = d"
  by (simp add: on_copy_def)

lemma snd_then_pd:
  assumes "\<And>d. snd (m d) = d" and "\<And>x d. snd (f x d) = d"
  shows "snd (then_pd m f d) = d"
proof (cases "m d")
  case (Pair r d')
  have "d' = d" using assms(1) [of d] Pair by simp
  with Pair show ?thesis
    by (cases r) (simp_all add: then_pd_def assms(2))
qed

lemma snd_df_calls [simp]:
  "snd (df_getitem name d) = d" "snd (df_dates d) = d" "snd (df_head n d) = d"
  "snd (df_shape d) = d" "snd (df_isnull_sum d) = d" "snd (df_dtypes d) = d"
  "snd (df_groupby_Month_mean d) = d"
  by (simp_all add: df_getitem_def df_dates_def df_head_def df_shape_def df_isnull_sum_def
      df_dtypes_def df_groupby_Month_mean_def)

lemma snd_df_getitems [simp]: "snd (df_getitems names d) = d"
  by (induction names arbitrary: d) (simp_all add: snd_then_pd)

lemma snd_line [simp]: "snd (line name d) = d"
  unfolding line_def by (intro snd_then_pd) simp_all

lemma snd_collect:
  assumes "\<And>m d. m \<in> set ms \<Longrightarrow> snd (m d) = d"
  shows "snd (collect ms d) = d"
  using assms
proof (induction ms arbitrary: d)
  case Nil
  then show ?case by simp
next
  case (Cons m ms)
  have "snd (collect ms d') = d'" for d' using Cons by simp
  then show ?case using Cons.prems by (simp add: snd_then_pd)
qed

lemma snd_collect_lines [simp]: "snd (collect (map line names) d) = d"
  by (rule snd_collect) auto

lemma eda_section_reads:
  assumes "m \<in> set eda_section"
  shows "snd (m d) = d"
  using assms unfolding eda_section_def
  by (auto intro!: snd_then_pd split: prod.splits)

lemma visuals_section_reads:
  assumes "m \<in> set visuals_section"
  shows "snd (m d) = d"
proof -
  have c4: "snd (collect [line a, line b, line c, line e] d') = d'" for a b c e d'
    using snd_collect_lines [of "[a, b, c, e]" d'] by simp
  have c1: "snd (collect [line a] d') = d'" for a d'
    using snd_collect_lines [of "[a]" d'] by simp
  have c2: "snd (collect [then_pd (df_getitem a) (\<lambda>xs. on_copy (f xs)),
                          then_pd (df_getitem b) (\<lambda>xs. on_copy (g xs))] d') = d'"
    for a b d' and f g :: "fval list \<Rightarrow> error + plot"
    by (rule snd_collect) (auto intro!: snd_then_pd)
  show ?thesis
    using assms unfolding visuals_section_def
    by (auto intro!: snd_then_pd simp: c4 c1 c2)
qed

lemma metrics_section_reads:
  assumes "m \<in> set metrics_section"
  shows "snd (m d) = d"
  using assms unfolding metrics_section_def
  by (auto intro!: snd_then_pd)

lemma frame_run:
  assumes "\<And>d. snd (m d) = d"
  shows "frame (run m s) = frame s"
proof (cases "exc s")
  case None
  show ?thesis
  proof (cases "frame s")
    case (Some d)
    obtain r d' where md: "m d = (r, d')" by (cases "m d")
    then have "d' = d" using assms [of d] by simp
    with md None Some show ?thesis by (cases r) (simp_all add: run_def)
  qed (simp add: run_def None)
qed (simp add: run_def)

lemma frame_fold_run:
  assumes "\<And>m d. m \<in> set ms \<Longrightarrow> snd (m d) = d"
  shows "frame (fold run ms s) = frame s"
  using assms by (induction ms arbitrary: s) (simp_all add: frame_run)

lemma frame_run_None [simp]: "frame (run m s) = None \<longleftrightarrow> frame s = None"
  by (auto simp: run_def split: option.splits sum.splits prod.splits)

lemma frame_fold_run_None [simp]: "frame (fold run ms s) = None \<longleftrightarrow> frame s = None"
  by (induction ms arbitrary: s) simp_all

lemma frame_render_None: "frame (render a b c s) = None \<longleftrightarrow> frame s = None"
  by (simp add: render_def Let_def)

lemma page_run: "\<exists>ys. page (run m s) = page s @ ys"
  by (simp add: run_def split: option.splits sum.splits prod.splits)

lemma page_fold_run: "\<exists>ys. page (fold run ms s) = page s @ ys"
proof (induction ms arbitrary: s)
  case Nil
  then show ?case by simp
next
  case (Cons m ms)
  from page_run [of m s] obtain ys where a: "page (run m s) = page s @ ys" ..
  from Cons [of "run m s"] obtain zs where "page (fold run ms (run m s)) = page (run m s) @ zs" ..
  with a show ?case by simp
qed

lemma page_render_nonempty:
  "page (render e v m \<lparr>frame = Some d, page = [], exc = None\<rparr>) \<noteq> []"
proof -
  let ?s1 = "run (ret (Title ''Adani Ports Stock Market Dashboard''))
               \<lparr>frame = Some d, page = [], exc = None\<rparr>"
  have p1: "page ?s1 \<noteq> []" by (simp add: run_def ret_def)
  have grow: "page (if b then fold run ms s else s) \<noteq> []" if "page s \<noteq> []" for b ms s
    using that page_fold_run [of ms s] by auto
  show ?thesis unfolding render_def Let_def
    by (intro grow p1)
qed

text \<open>
  The frame is threaded for real: a statement that drops rows in place, as line 33 of
  \<open>load_data\<close> does, leaves another frame behind.
\<close>

lemma run_in_place_changes_frame:
  "frame (run (then_pd (in_place dropna_Trades) (\<lambda>u. ret (Write [])))
            \<lparr>frame = Some (read_csv example_file), page = [], exc = None\<rparr>)
   \<noteq> Some (read_csv example_file)"
  by (simp add: run_def then_pd_def in_place_def ret_def dropna_Trades_def read_csv_def
      example_file_def example_row_def)

lemma header_only_file_fails: "load_data header_only_file = Inl IndexError"
  by (simp add: load_data_def bind_def read_csv_def assign_Date_def getcol_def setcol_def
      to_datetime_def dropna_Trades_def assign_Volume_def winsorize1D_empty
      header_only_file_def)

lemma load_data_not_loadable:
  assumes "\<not> loadable file"
  shows "\<exists>e. load_data file = Inl e"
proof (cases "load_data file")
  case (Inl e)
  then show ?thesis by blast
next
  case (Inr d)
  then have "loadable file" by (rule load_data_loadable)
  with assms show ?thesis by simp
qed

lemma load_data_no_Trades:
  assumes "''Trades'' \<notin> set (header file)" and "''Date'' \<in> set (header file)"
    and "Unparseable \<notin> Date ` set (lines file)"
  shows "load_data file = Inl (KeyError ''Trades'')"
proof -
  have s1: "assign_Date (read_csv file) = Inr (read_csv file)"
    unfolding assign_Date_Inr using assms(2,3)
    by (simp only: Date_read_csv) (simp add: read_csv_def)
  have s2: "dropna_Trades (read_csv file) = Inl (KeyError ''Trades'')"
    using assms(1) by (simp add: dropna_Trades_def read_csv_def)
  show ?thesis unfolding load_data_def by (simp only: bind_def sum.case s1 s2)
qed

lemma run_app_load_fails:
  "load_data file = Inl e \<Longrightarrow>
   run_app (Some file) a b c = \<lparr>frame = None, page = [], exc = Some e\<rparr>"
  by (simp add: run_app_def)

lemma no_vwap_file_loads: "\<exists>d. load_data no_vwap_file = Inr d"
  by (rule load_data_succeeds)
     (simp_all add: loadable_def no_vwap_file_def example_file_def example_row_def)

lemma outlier_file_volumes:
  "retained outlier_file = lines outlier_file"
  "length (lines outlier_file) = 200"
  "\<forall>v\<in>set (map Volume (lines outlier_file)). 1000 \<le> v \<and> (v \<le> 1199 \<or> v = 5000000)"
  "Volume (lines outlier_file ! 137) = 5000000"
  "\<forall>i<200. i \<noteq> 137 \<longrightarrow> Volume (lines outlier_file ! i) < Volume (lines outlier_file ! 137)"
  by (auto simp: outlier_file_def example_row_def)

lemma outlier_file_clipped_range:
  assumes "load_data outlier_file = Inr df"
  shows "\<forall>v\<in>set (map Volume (rows df)). 1000 \<le> v \<and> v \<le> 1199"
proof -
  let ?vs = "map Volume (lines outlier_file)"
  let ?s = "sort ?vs"
  have n: "length ?vs = 200" using outlier_file_volumes(2) by simp
  then have ne: "?vs \<noteq> []" by auto
  have w: "winsorize1D ?vs = Inr (map Volume (rows df))"
    using load_data_columns(11) [OF assms] by (simp only: outlier_file_volumes(1))
  have out: "map Volume (rows df) = map (clip (?s ! 2) (?s ! 197)) ?vs"
    using w winsorize1D_nonempty [OF ne] n by simp
  have mem: "?s ! k \<in> set ?vs" if "k < 200" for k
  proof -
    have "?s ! k \<in> set ?s" using that n by (intro nth_mem) simp
    then show ?thesis by (simp only: set_sort)
  qed
  have m2: "?s ! 2 \<in> set ?vs" by (rule mem) simp
  have m197: "?s ! 197 \<in> set ?vs" by (rule mem) simp
  have lo: "1000 \<le> ?s ! 2" using bspec [OF outlier_file_volumes(3) m2] by blast
  have "?s ! 197 < ?vs ! 137"
    using outlier_file_volumes(2,5) by (intro sort_nth_below_unique_max) simp_all
  then have "?s ! 197 < 5000000" using outlier_file_volumes(2,4) by simp
  moreover have "?s ! 197 \<le> 1199 \<or> ?s ! 197 = 5000000"
    using bspec [OF outlier_file_volumes(3) m197] by blast
  ultimately have hi: "?s ! 197 \<le> 1199" by simp
  have "\<forall>v\<in>set (map (clip (?s ! 2) (?s ! 197)) ?vs). 1000 \<le> v \<and> v \<le> 1199"
  proof
    fix v assume "v \<in> set (map (clip (?s ! 2) (?s ! 197)) ?vs)"
    then obtain x where v: "v = clip (?s ! 2) (?s ! 197) x" by auto
    have "?s ! 2 \<le> ?s ! 197"
      using sorted_nth_mono [of ?s 2 197] n by simp
    then have "?s ! 2 \<le> v \<and> v \<le> ?s ! 197" unfolding v by (simp add: clip_def)
    with lo hi show "1000 \<le> v \<and> v \<le> 1199" by simp
  qed
  then show ?thesis by (simp only: out)
qed

section \<open>The claims\<close>

text \<open>
  Claim C1. In every frame \<open>load_data\<close> returns, each value of \<open>Volume\<close> lies between the
  1st and the 99th percentile (nearest rank) of the \<open>Volume\<close> of the retained lines, the
  column the clipping is applied to. When the file has 200 lines, none missing
  \<open>Trades\<close>, and the \<open>Volume\<close> of line \<open>j\<close> is above that of every other line, the
  frame's \<open>Volume\<close> at row \<open>j\<close> is that 99th percentile and is below the line's own value.
\<close>

theorem clipped_volume_within_percentiles:
  assumes "load_data file = Inr df"
  shows "\<exists>lo hi.
           percentile_nearest_rank 1 (map Volume (retained file)) = Some lo \<and>
           percentile_nearest_rank 99 (map Volume (retained file)) = Some hi \<and>
           (\<forall>v\<in>set (map Volume (rows df)). lo \<le> v \<and> v \<le> hi) \<and>
           (length (lines file) = 200 \<and> (\<forall>r\<in>set (lines file). Trades r \<noteq> None) \<longrightarrow>
              (\<forall>j<200. (\<forall>i<200. i \<noteq> j \<longrightarrow> Volume (lines file ! i) < Volume (lines file ! j)) \<longrightarrow>
                 Volume (rows df ! j) = hi \<and> Volume (rows df ! j) < Volume (lines file ! j)))"
proof -
  let ?vs = "map Volume (retained file)"
  let ?n = "length ?vs"
  let ?k = "?n div 100"
  let ?u = "?n - ?k - 1"
  let ?s = "sort ?vs"
  have ne: "?vs \<noteq> []" using load_data_nonempty(2) [OF assms] by simp
  then have n: "0 < ?n" by simp
  have w: "winsorize1D ?vs = Inr (map Volume (rows df))"
    using assms by (rule load_data_columns)
  have out: "map Volume (rows df) = map (clip (?s ! ?k) (?s ! ?u)) ?vs"
    using w winsorize1D_nonempty [OF ne] by simp
  have srt: "sorted ?s" by simp
  have ku: "?k \<le> ?u" using n by (rule low_le_up_index)
  have u: "?u < ?n" using n by simp
  have lohi: "?s ! ?k \<le> ?s ! ?u" using sorted_nth_mono [OF srt ku] u by simp
  let ?lo = "?s ! ((1 * ?n + 99) div 100 - 1)"
  have p1: "percentile_nearest_rank 1 ?vs = Some ?lo"
    using ne by (simp only: percentile_nearest_rank_def if_False)
  have p99: "percentile_nearest_rank 99 ?vs = Some (?s ! ?u)"
    using ne rank_99 [OF n] by (simp only: percentile_nearest_rank_def if_False)
  have lo_le: "?lo \<le> ?s ! ?k"
    using sorted_nth_mono [OF srt rank_1 [of ?n]] n by simp
  have within: "\<forall>v\<in>set (map Volume (rows df)). ?lo \<le> v \<and> v \<le> ?s ! ?u"
    unfolding out using lo_le lohi by (rule clip_map_bounds)
  have scen: "Volume (rows df ! j) = ?s ! ?u \<and> Volume (rows df ! j) < Volume (lines file ! j)"
    if len: "length (lines file) = 200" and tr: "\<forall>r\<in>set (lines file). Trades r \<noteq> None"
      and j: "j < 200" and mx: "\<forall>i<200. i \<noteq> j \<longrightarrow> Volume (lines file ! i) < Volume (lines file ! j)"
    for j
  proof -
    have ret: "retained file = lines file" using tr by (rule retained_all)
    have n200: "?n = 200" using ret len by simp
    have j': "j < length ?vs" using j n200 by simp
    have vj: "?vs ! j = Volume (lines file ! j)" using ret j len by simp
    have mx': "\<forall>i<length ?vs. i \<noteq> j \<longrightarrow> ?vs ! i < ?vs ! j"
      using mx ret len j by simp
    have "Suc ?u < length ?vs" using n200 by simp
    then have below: "?s ! ?u < ?vs ! j"
      by (rule sort_nth_below_unique_max [OF j' mx'])
    have "Volume (rows df ! j) = map Volume (rows df) ! j"
      using j' length_winsorize1D [OF w] by simp
    also have "\<dots> = clip (?s ! ?k) (?s ! ?u) (?vs ! j)"
      unfolding out using j' by simp
    also have "\<dots> = ?s ! ?u" using below lohi by (simp add: clip_def)
    finally show ?thesis using below vj by simp
  qed
  from p1 p99 within scen show ?thesis by blast
qed

theorem clipped_volume_within_percentiles_witness:
  "\<exists>df lo hi. load_data outlier_file = Inr df \<and>
     percentile_nearest_rank 1 (map Volume (lines outlier_file)) = Some lo \<and>
     percentile_nearest_rank 99 (map Volume (lines outlier_file)) = Some hi \<and>
     (\<forall>v\<in>set (map Volume (rows df)). lo \<le> v \<and> v \<le> hi) \<and>
     Volume (lines outlier_file ! 137) = 5000000 \<and>
     Volume (rows df ! 137) = hi \<and> Volume (rows df ! 137) < 5000000"
proof -
  from outlier_file_loads obtain df where l: "load_data outlier_file = Inr df" ..
  have len: "length (lines outlier_file) = 200" by (simp add: outlier_file_def)
  have tr: "\<forall>r\<in>set (lines outlier_file). Trades r \<noteq> None"
    by (auto simp: outlier_file_def example_row_def)
  have ret: "retained outlier_file = lines outlier_file" using tr by (rule retained_all)
  have v137: "Volume (lines outlier_file ! 137) = 5000000"
    by (simp add: outlier_file_def)
  have mx: "\<forall>i<200. i \<noteq> 137 \<longrightarrow> Volume (lines outlier_file ! i) < Volume (lines outlier_file ! 137)"
    by (simp add: outlier_file_def)
  from clipped_volume_within_percentiles [OF l] obtain lo hi where
    p1: "percentile_nearest_rank 1 (map Volume (retained outlier_file)) = Some lo" and
    p99: "percentile_nearest_rank 99 (map Volume (retained outlier_file)) = Some hi" and
    within: "\<forall>v\<in>set (map Volume (rows df)). lo \<le> v \<and> v \<le> hi" and
    scen: "length (lines outlier_file) = 200 \<and> (\<forall>r\<in>set (lines outlier_file). Trades r \<noteq> None) \<longrightarrow>
       (\<forall>j<200. (\<forall>i<200. i \<noteq> j \<longrightarrow> Volume (lines outlier_file ! i) < Volume (lines outlier_file ! j)) \<longrightarrow>
          Volume (rows df ! j) = hi \<and> Volume (rows df ! j) < Volume (lines outlier_file ! j))"
    by blast
  from scen len tr have
    "\<forall>j<200. (\<forall>i<200. i \<noteq> j \<longrightarrow> Volume (lines outlier_file ! i) < Volume (lines outlier_file ! j)) \<longrightarrow>
          Volume (rows df ! j) = hi \<and> Volume (rows df ! j) < Volume (lines outlier_file ! j)"
    by blast
  then have "(137::nat) < 200 \<longrightarrow>
      (\<forall>i<200. i \<noteq> 137 \<longrightarrow> Volume (lines outlier_file ! i) < Volume (lines outlier_file ! 137)) \<longrightarrow>
          Volume (rows df ! 137) = hi \<and> Volume (rows df ! 137) < Volume (lines outlier_file ! 137)"
    by (rule spec)
  moreover have "(137::nat) < 200" by simp
  ultimately have "(\<forall>i<200. i \<noteq> 137 \<longrightarrow> Volume (lines outlier_file ! i) < Volume (lines outlier_file ! 137)) \<longrightarrow>
          Volume (rows df ! 137) = hi \<and> Volume (rows df ! 137) < Volume (lines outlier_file ! 137)"
    by (rule mp)
  with mx have "Volume (rows df ! 137) = hi \<and> Volume (rows df ! 137) < Volume (lines outlier_file ! 137)"
    by blast
  then have "Volume (rows df ! 137) = hi \<and> Volume (rows df ! 137) < 5000000"
    using v137 by simp
  with l p1 p99 within v137 show ?thesis unfolding ret by blast
qed

text \<open>
  Claim C2. In every frame \<open>load_data\<close> returns, \<open>Daily_Return\<close> is \<open>NaN\<close> at row 0 and,
  at every row \<open>i \<ge> 1\<close>, the float quotient of \<open>Close\<close> at rows \<open>i\<close> and \<open>i - 1\<close> of the
  frame minus one, which is the number \<open>Close[i] / Close[i-1] - 1\<close> unless the divisor is
  zero. The frame's \<open>Close\<close> column is the \<open>Close\<close> of the retained lines in file order, so
  row \<open>i - 1\<close> is the retained line just before.
\<close>

theorem daily_return_is_pct_change_of_close:
  assumes "load_data file = Inr df"
  shows "rows df \<noteq> [] \<and> Daily_Return (rows df ! 0) = NaN \<and>
         map Close (rows df) = map Close (retained file) \<and>
         (\<forall>i. 1 \<le> i \<and> i < length (rows df) \<longrightarrow>
            Daily_Return (rows df ! i) =
              fsub1 (fdiv (Close (rows df ! i)) (Close (rows df ! (i - 1)))) \<and>
            (Close (rows df ! (i - 1)) \<noteq> 0 \<longrightarrow>
               Daily_Return (rows df ! i) =
                 Fin (Close (rows df ! i) / Close (rows df ! (i - 1)) - 1)))"
proof -
  have ne: "rows df \<noteq> []" using assms by (rule load_data_nonempty)
  have cl: "map Close (rows df) = map Close (retained file)"
    using assms by (rule load_data_columns)
  have dr: "map Daily_Return (rows df) = pct_change (map Close (rows df))"
    using load_data_columns(12) [OF assms] cl by simp
  have nth: "Daily_Return (rows df ! i) =
             (if i = 0 then NaN else fsub1 (fdiv (Close (rows df ! i)) (Close (rows df ! (i - 1)))))"
    if "i < length (rows df)" for i
  proof -
    have "Daily_Return (rows df ! i) = map Daily_Return (rows df) ! i"
      using that by simp
    also have "\<dots> = pct_change (map Close (rows df)) ! i" by (simp only: dr)
    finally show ?thesis using that by (simp add: nth_pct_change)
  qed
  show ?thesis using ne cl nth by (auto simp: fdiv_def)
qed

theorem daily_return_is_pct_change_of_close_witness:
  "\<exists>df. load_data example_file = Inr df \<and> Daily_Return (rows df ! 0) = NaN \<and>
        Daily_Return (rows df ! 1) = Fin (12 / 10 - 1) \<and>
        Daily_Return (rows df ! 2) = Fin (9 / 12 - 1)"
proof -
  from example_file_loads obtain df where l: "load_data example_file = Inr df" ..
  note t = daily_return_is_pct_change_of_close [OF l]
  have c: "map Close (rows df) = [10, 12, 9]"
    using t by (simp add: example_file_def example_row_def)
  then have n: "length (rows df) = 3" by (metis length_map length_Cons list.size(3) numeral_3_eq_3)
  have c0: "Close (rows df ! 0) = 10" and c1: "Close (rows df ! 1) = 12" and c2: "Close (rows df ! 2) = 9"
    using arg_cong [OF c, of "\<lambda>xs. xs ! 0"] arg_cong [OF c, of "\<lambda>xs. xs ! 1"]
      arg_cong [OF c, of "\<lambda>xs. xs ! 2"] n by simp_all
  from t have "Daily_Return (rows df ! 0) = NaN" by simp
  moreover from t n c0 c1 have "Daily_Return (rows df ! 1) = Fin (12 / 10 - 1)"
    by (auto simp: fdiv_def)
  moreover from t n c1 c2 have "Daily_Return (rows df ! 2) = Fin (9 / 12 - 1)"
    by (auto simp: fdiv_def)
  ultimately show ?thesis using l by blast
qed

text \<open>
  Claim C3. In every frame \<open>load_data\<close> returns, for each window \<open>w\<close> of 5, 20 and 50 the
  column \<open>MA5\<close>, \<open>MA20\<close>, \<open>MA50\<close> is \<open>NaN\<close> at the rows \<open>i < w - 1\<close> and, at every
  other row, the sum of \<open>Close\<close> over the rows \<open>i - w + 1 .. i\<close> of the frame divided by
  \<open>w\<close>.
\<close>

theorem moving_averages_are_trailing_means:
  assumes "load_data file = Inr df" and "i < length (rows df)"
  shows "MA5 (rows df ! i) =
           (if i < 4 then NaN else Fin ((\<Sum>k = i - 4..i. Close (rows df ! k)) / 5)) \<and>
         MA20 (rows df ! i) =
           (if i < 19 then NaN else Fin ((\<Sum>k = i - 19..i. Close (rows df ! k)) / 20)) \<and>
         MA50 (rows df ! i) =
           (if i < 49 then NaN else Fin ((\<Sum>k = i - 49..i. Close (rows df ! k)) / 50))"
proof -
  let ?cs = "map Close (rows df)"
  have cl: "map Close (retained file) = ?cs"
    using load_data_columns(8) [OF assms(1)] by simp
  have i: "i < length ?cs" using assms(2) by simp
  have sum_eq: "(\<Sum>k = a..i. ?cs ! k) = (\<Sum>k = a..i. Close (rows df ! k))" for a
    using assms(2) by (intro sum.cong) simp_all
  have ma: "rolling_mean w (map Fin ?cs) ! i =
            (if Suc i < w then NaN else Fin ((\<Sum>k = Suc i - w..i. Close (rows df ! k)) / real w))"
    if "0 < w" for w
    using nth_rolling_mean_Fin [OF i that] by (simp only: sum_eq)
  have "MA5 (rows df ! i) = rolling_mean 5 (map Fin ?cs) ! i"
    using load_data_columns(13) [OF assms(1)] assms(2) by (simp only: nth_col cl)
  then have m5: "MA5 (rows df ! i) =
      (if i < 4 then NaN else Fin ((\<Sum>k = i - 4..i. Close (rows df ! k)) / 5))"
    using ma [of 5] by (auto simp: Suc_diff_le)
  have "MA20 (rows df ! i) = rolling_mean 20 (map Fin ?cs) ! i"
    using load_data_columns(14) [OF assms(1)] assms(2) by (simp only: nth_col cl)
  then have m20: "MA20 (rows df ! i) =
      (if i < 19 then NaN else Fin ((\<Sum>k = i - 19..i. Close (rows df ! k)) / 20))"
    using ma [of 20] by (auto simp: Suc_diff_le)
  have "MA50 (rows df ! i) = rolling_mean 50 (map Fin ?cs) ! i"
    using load_data_columns(15) [OF assms(1)] assms(2) by (simp only: nth_col cl)
  then have m50: "MA50 (rows df ! i) =
      (if i < 49 then NaN else Fin ((\<Sum>k = i - 49..i. Close (rows df ! k)) / 50))"
    using ma [of 50] by (auto simp: Suc_diff_le)
  from m5 m20 m50 show ?thesis by simp
qed

theorem moving_averages_are_trailing_means_witness:
  "\<exists>df. load_data outlier_file = Inr df \<and> 10 < length (rows df) \<and>
     MA5 (rows df ! 3) = NaN \<and>
     MA5 (rows df ! 10) = Fin ((\<Sum>k = 6..10. Close (rows df ! k)) / 5) \<and>
     MA20 (rows df ! 10) = NaN \<and> MA50 (rows df ! 10) = NaN"
proof -
  from outlier_file_loads obtain df where l: "load_data outlier_file = Inr df" ..
  have "length (rows df) = length (retained outlier_file)" using l by (rule load_data_length)
  also have "\<dots> = 200" by (simp add: outlier_file_def example_row_def)
  finally have n: "length (rows df) = 200" .
  then have i3: "3 < length (rows df)" and i10: "10 < length (rows df)" by simp_all
  from moving_averages_are_trailing_means [OF l i3] moving_averages_are_trailing_means [OF l i10]
    l i10
  show ?thesis by auto
qed

text \<open>
  Claim C4, as stated, fails for the required columns that \<open>load_data\<close> never reads: a
  file without \<open>VWAP\<close> loads, a frame is produced, and with the summary and the metrics
  selected the page is not empty.
\<close>

theorem missing_required_column_counterexample:
  "''VWAP'' \<notin> set (header no_vwap_file) \<and>
   \<not> isl (load_data no_vwap_file) \<and>
   frame (run_app (Some no_vwap_file) True False True) \<noteq> None \<and>
   page (run_app (Some no_vwap_file) True False True) \<noteq> []"
proof -
  from no_vwap_file_loads obtain d where l: "load_data no_vwap_file = Inr d" ..
  have r: "run_app (Some no_vwap_file) True False True =
           render True False True \<lparr>frame = Some d, page = [], exc = None\<rparr>"
    using l by (simp add: run_app_def)
  have "''VWAP'' \<notin> set (header no_vwap_file)"
    by (simp add: no_vwap_file_def example_file_def)
  moreover have "\<not> isl (load_data no_vwap_file)" using l by simp
  moreover have "frame (run_app (Some no_vwap_file) True False True) \<noteq> None"
    unfolding r by (simp add: frame_render_None)
  moreover have "page (run_app (Some no_vwap_file) True False True) \<noteq> []"
    unfolding r by (rule page_render_nonempty)
  ultimately show ?thesis by blast
qed

text \<open>
  Claim C4, amended. For every file that lacks one of the columns \<open>load_data\<close> reads
  (\<open>Date\<close>, \<open>Trades\<close>, \<open>Volume\<close>, \<open>Close\<close>, \<open>High\<close>, \<open>Low\<close>), \<open>load_data\<close> fails with an error,
  no frame is produced and nothing of the page body is shown, whatever the flags. When
  the missing column is \<open>Trades\<close> and the dates are there and parse, the error is the
  \<open>KeyError\<close> for \<open>Trades\<close>.
\<close>

theorem missing_load_column_fails:
  assumes "c \<in> {''Date'', ''Trades'', ''Volume'', ''Close'', ''High'', ''Low''}"
    and "c \<notin> set (header file)"
  shows "(\<exists>e. load_data file = Inl e \<and>
            run_app (Some file) show_eda show_visuals show_metrics =
              \<lparr>frame = None, page = [], exc = Some e\<rparr>) \<and>
         (c = ''Trades'' \<and> ''Date'' \<in> set (header file) \<and>
          Unparseable \<notin> Date ` set (lines file) \<longrightarrow>
            load_data file = Inl (KeyError ''Trades''))"
proof -
  have "\<not> loadable file" using assms unfolding loadable_def by blast
  then obtain e where e: "load_data file = Inl e"
    using load_data_not_loadable by blast
  have "run_app (Some file) show_eda show_visuals show_metrics =
          \<lparr>frame = None, page = [], exc = Some e\<rparr>"
    using e by (rule run_app_load_fails)
  with e assms(2) load_data_no_Trades [of "file"] show ?thesis by blast
qed

theorem missing_load_column_fails_witness:
  "''Trades'' \<notin> set (header no_trades_file) \<and>
   load_data no_trades_file = Inl (KeyError ''Trades'') \<and>
   run_app (Some no_trades_file) True True True =
     \<lparr>frame = None, page = [], exc = Some (KeyError ''Trades'')\<rparr>"
proof -
  have h1: "''Trades'' \<in> {''Date'', ''Trades'', ''Volume'', ''Close'', ''High'', ''Low''}" by simp
  have h2: "''Trades'' \<notin> set (header no_trades_file)"
    by (simp add: no_trades_file_def example_file_def)
  have h3: "''Date'' \<in> set (header no_trades_file)"
    by (simp add: no_trades_file_def example_file_def)
  have h4: "Unparseable \<notin> Date ` set (lines no_trades_file)"
    by (simp add: no_trades_file_def example_file_def example_row_def)
  from missing_load_column_fails [OF h1 h2, of True True True] h3 h4
  show ?thesis using h2 by auto
qed

text \<open>
  Claim C5, as stated, fails on a valid file that keeps no row: with no data line, or
  with \<open>Trades\<close> missing on every line, winsorization raises \<open>IndexError\<close> on the empty
  \<open>Volume\<close> column, so the pipeline has no output whose rows could be counted.
\<close>

theorem row_count_counterexample:
  "loadable header_only_file \<and> length (lines header_only_file) = 0 \<and>
   load_data header_only_file = Inl IndexError \<and>
   loadable untraded_file \<and> length (lines untraded_file) = 2 \<and>
   load_data untraded_file = Inl IndexError"
  using header_only_file_fails untraded_file_fails
  by (simp add: loadable_def header_only_file_def untraded_file_def example_row_def)

text \<open>
  Claim C5, amended. For every loadable file with at least one line whose \<open>Trades\<close> is
  present, \<open>load_data\<close> returns a frame that has at most as many rows as the file has
  lines; the rows kept are exactly the lines whose \<open>Trades\<close> is present, in file order
  (the frame's index holds their line numbers); and the rows of the frame together with
  the lines whose \<open>Trades\<close> is missing make up the whole file, so no row is added.
\<close>

theorem row_count_never_increases:
  assumes "loadable file" and "retained file \<noteq> []"
  shows "\<exists>df. load_data file = Inr df \<and>
           length (rows df) \<le> length (lines file) \<and>
           map index (rows df) =
             filter (\<lambda>i. Trades (lines file ! i) \<noteq> None) [0..<length (lines file)] \<and>
           length (rows df) + length (filter (\<lambda>r. Trades r = None) (lines file)) =
             length (lines file)"
proof -
  from load_data_succeeds [OF assms] obtain df where l: "load_data file = Inr df" ..
  have len: "length (rows df) = length (retained file)"
    using l by (rule load_data_length)
  have "length (retained file) + length (filter (\<lambda>r. Trades r = None) (lines file)) =
        length (lines file)"
    using sum_length_filter_compl [of "\<lambda>r. Trades r \<noteq> None" "lines file"] by simp
  with len load_data_columns(3) [OF l] l show ?thesis by (intro exI [of _ df]) simp
qed

theorem row_count_never_increases_witness:
  "loadable example_file \<and> retained example_file \<noteq> [] \<and>
   (\<exists>df. load_data example_file = Inr df \<and> length (rows df) \<le> 4 \<and>
         map index (rows df) = [0, 2, 3] \<and> length (rows df) + 1 = 4)"
proof -
  have h: "loadable example_file" "retained example_file \<noteq> []"
    by (simp_all add: loadable_def example_file_def example_row_def)
  have f: "filter (\<lambda>i. Trades (lines example_file ! i) \<noteq> None) [0..<length (lines example_file)] = [0, 2, 3]"
    by (simp add: example_file_def example_row_def upt_rec)
  have g: "length (filter (\<lambda>r. Trades r = None) (lines example_file)) = 1"
    "length (lines example_file) = 4"
    by (simp_all add: example_file_def example_row_def)
  from row_count_never_increases [OF h] obtain df where
    "load_data example_file = Inr df \<and>
           length (rows df) \<le> length (lines example_file) \<and>
           map index (rows df) =
             filter (\<lambda>i. Trades (lines example_file ! i) \<noteq> None) [0..<length (lines example_file)] \<and>
           length (rows df) + length (filter (\<lambda>r. Trades r = None) (lines example_file)) =
             length (lines example_file)" ..
  then have "load_data example_file = Inr df \<and> length (rows df) \<le> 4 \<and>
         map index (rows df) = [0, 2, 3] \<and> length (rows df) + 1 = 4"
    using f g by simp
  then have "\<exists>df. load_data example_file = Inr df \<and> length (rows df) \<le> 4 \<and>
         map index (rows df) = [0, 2, 3] \<and> length (rows df) + 1 = 4" ..
  with h show ?thesis by simp
qed

text \<open>
  Claim C6. In every frame \<open>load_data\<close> returns, the \<open>Volume\<close> column is the winsorized
  \<open>Volume\<close> of the retained lines, and \<open>Volume_Change\<close> is computed from that column:
  \<open>NaN\<close> at row 0 and, at every row \<open>i \<ge> 1\<close>, the float quotient of the frame's \<open>Volume\<close>
  at rows \<open>i\<close> and \<open>i - 1\<close> minus one, which is the number
  \<open>Volume[i] / Volume[i-1] - 1\<close> unless the divisor is zero.
\<close>

theorem volume_change_uses_clipped_volume:
  assumes "load_data file = Inr df"
  shows "winsorize1D (map Volume (retained file)) = Inr (map Volume (rows df)) \<and>
         rows df \<noteq> [] \<and> Volume_Change (rows df ! 0) = NaN \<and>
         (\<forall>i. 1 \<le> i \<and> i < length (rows df) \<longrightarrow>
            Volume_Change (rows df ! i) =
              fsub1 (fdiv (real_of_int (Volume (rows df ! i)))
                          (real_of_int (Volume (rows df ! (i - 1))))) \<and>
            (Volume (rows df ! (i - 1)) \<noteq> 0 \<longrightarrow>
               Volume_Change (rows df ! i) =
                 Fin (real_of_int (Volume (rows df ! i)) /
                      real_of_int (Volume (rows df ! (i - 1))) - 1)))"
proof -
  have ne: "rows df \<noteq> []" using assms by (rule load_data_nonempty)
  have w: "winsorize1D (map Volume (retained file)) = Inr (map Volume (rows df))"
    using assms by (rule load_data_columns)
  have vc: "map Volume_Change (rows df) = pct_change (map real_of_int (map Volume (rows df)))"
    using assms by (rule load_data_columns)
  have nth: "Volume_Change (rows df ! i) =
             (if i = 0 then NaN
              else fsub1 (fdiv (real_of_int (Volume (rows df ! i)))
                               (real_of_int (Volume (rows df ! (i - 1))))))"
    if "i < length (rows df)" for i
  proof -
    have "Volume_Change (rows df ! i) = map Volume_Change (rows df) ! i"
      using that by simp
    also have "\<dots> = pct_change (map real_of_int (map Volume (rows df))) ! i" by (simp only: vc)
    finally show ?thesis using that by (simp add: nth_pct_change)
  qed
  show ?thesis using ne w nth by (auto simp: fdiv_def)
qed

theorem volume_change_uses_clipped_volume_witness:
  "\<exists>df. load_data outlier_file = Inr df \<and>
     Volume (lines outlier_file ! 136) = 1136 \<and> Volume (lines outlier_file ! 137) = 5000000 \<and>
     Volume (rows df ! 137) \<le> 1199 \<and>
     Volume_Change (rows df ! 0) = NaN \<and>
     Volume_Change (rows df ! 137) =
       Fin (real_of_int (Volume (rows df ! 137)) / real_of_int (Volume (rows df ! 136)) - 1) \<and>
     Volume_Change (rows df ! 137) \<noteq> Fin (5000000 / 1136 - 1)"
proof -
  from outlier_file_loads obtain df where l: "load_data outlier_file = Inr df" ..
  note t = volume_change_uses_clipped_volume [OF l]
  have n: "length (rows df) = 200"
    using load_data_length [OF l] outlier_file_volumes(1,2) by simp
  have r: "\<forall>v\<in>set (map Volume (rows df)). 1000 \<le> v \<and> v \<le> 1199"
    using l by (rule outlier_file_clipped_range)
  have r136: "1000 \<le> Volume (rows df ! 136) \<and> Volume (rows df ! 136) \<le> 1199"
    using r n by (simp add: nth_mem)
  have r137: "1000 \<le> Volume (rows df ! 137) \<and> Volume (rows df ! 137) \<le> 1199"
    using r n by (simp add: nth_mem)
  have v136: "Volume (lines outlier_file ! 136) = 1136"
    by (simp add: outlier_file_def)
  from t have z: "Volume_Change (rows df ! 0) = NaN" by (elim conjE)
  from t have "\<forall>i. 1 \<le> i \<and> i < length (rows df) \<longrightarrow>
            Volume_Change (rows df ! i) =
              fsub1 (fdiv (real_of_int (Volume (rows df ! i)))
                          (real_of_int (Volume (rows df ! (i - 1))))) \<and>
            (Volume (rows df ! (i - 1)) \<noteq> 0 \<longrightarrow>
               Volume_Change (rows df ! i) =
                 Fin (real_of_int (Volume (rows df ! i)) /
                      real_of_int (Volume (rows df ! (i - 1))) - 1))"
    by (elim conjE)
  then have "1 \<le> (137::nat) \<and> 137 < length (rows df) \<longrightarrow>
            Volume_Change (rows df ! 137) =
              fsub1 (fdiv (real_of_int (Volume (rows df ! 137)))
                          (real_of_int (Volume (rows df ! (137 - 1))))) \<and>
            (Volume (rows df ! (137 - 1)) \<noteq> 0 \<longrightarrow>
               Volume_Change (rows df ! 137) =
                 Fin (real_of_int (Volume (rows df ! 137)) /
                      real_of_int (Volume (rows df ! (137 - 1))) - 1))"
    by (rule spec)
  then have vc: "Volume_Change (rows df ! 137) =
       Fin (real_of_int (Volume (rows df ! 137)) / real_of_int (Volume (rows df ! 136)) - 1)"
    using n r136 by (simp add: fdiv_def)
  have "real_of_int (Volume (rows df ! 137)) / real_of_int (Volume (rows df ! 136)) \<le> 1199 / 1000"
    using r136 r137 by (intro frac_le) simp_all
  then have "real_of_int (Volume (rows df ! 137)) / real_of_int (Volume (rows df ! 136)) - 1
              \<noteq> 5000000 / 1136 - 1"
    by simp
  with vc have ne: "Volume_Change (rows df ! 137) \<noteq> Fin (5000000 / 1136 - 1)" by simp
  from l v136 outlier_file_volumes(4) r137 z vc ne show ?thesis
    by (intro exI [of _ df]) simp
qed

text \<open>
  Claim C7. For every loadable file of 60 lines, none missing \<open>Trades\<close>, whose \<open>Close\<close> is
  100 on every line, \<open>load_data\<close> returns a frame of 60 rows in which \<open>Daily_Return\<close> is 0
  at every row \<open>i \<ge> 1\<close> (and \<open>NaN\<close> at row 0); \<open>MA5\<close>, \<open>MA20\<close> and \<open>MA50\<close> are 100 from rows
  4, 19 and 49 on and \<open>NaN\<close> before; and \<open>Rolling_Volatility_20\<close> is 0 from row 20 on and
  \<open>NaN\<close> before.
\<close>

theorem constant_close_scenario:
  assumes "loadable file" and "length (lines file) = 60"
    and "\<forall>r\<in>set (lines file). Trades r \<noteq> None \<and> Close r = 100"
  shows "\<exists>df. load_data file = Inr df \<and> length (rows df) = 60 \<and>
           (\<forall>i<60.
              Daily_Return (rows df ! i) = (if i = 0 then NaN else Fin 0) \<and>
              MA5 (rows df ! i) = (if i < 4 then NaN else Fin 100) \<and>
              MA20 (rows df ! i) = (if i < 19 then NaN else Fin 100) \<and>
              MA50 (rows df ! i) = (if i < 49 then NaN else Fin 100) \<and>
              Rolling_Volatility_20 (rows df ! i) = (if i < 20 then NaN else Fin 0))"
proof -
  have ret: "retained file = lines file" using assms(3) by (intro retained_all) simp
  then have "retained file \<noteq> []" using assms(2) by auto
  from load_data_succeeds [OF assms(1) this] obtain df where l: "load_data file = Inr df" ..
  have len: "length (rows df) = 60"
    using load_data_length [OF l] ret assms(2) by simp
  have cs: "map Close (retained file) = replicate (Suc 59) 100"
    unfolding ret using assms(2,3) map_constant [of "lines file" Close 100] by simp
  have dr: "map Daily_Return (rows df) = NaN # replicate 59 (Fin 0)"
  proof -
    have "map Daily_Return (rows df) = pct_change (replicate (Suc 59) 100)"
      using load_data_columns(12) [OF l] by (simp only: cs)
    then show ?thesis by (simp only: pct_change_replicate) (simp add: fdiv_def)
  qed
  have ma5: "map MA5 (rows df) = rolling_mean 5 (map Fin (replicate (Suc 59) 100))"
    using load_data_columns(13) [OF l] by (simp only: cs)
  have ma20: "map MA20 (rows df) = rolling_mean 20 (map Fin (replicate (Suc 59) 100))"
    using load_data_columns(14) [OF l] by (simp only: cs)
  have ma50: "map MA50 (rows df) = rolling_mean 50 (map Fin (replicate (Suc 59) 100))"
    using load_data_columns(15) [OF l] by (simp only: cs)
  have rv: "map Rolling_Volatility_20 (rows df) = rolling_std 20 (NaN # replicate 59 (Fin 0))"
    using load_data_columns(18) [OF l] load_data_columns(12) [OF l] dr by (simp only:)
  have row: "Daily_Return (rows df ! i) = (if i = 0 then NaN else Fin 0) \<and>
              MA5 (rows df ! i) = (if i < 4 then NaN else Fin 100) \<and>
              MA20 (rows df ! i) = (if i < 19 then NaN else Fin 100) \<and>
              MA50 (rows df ! i) = (if i < 49 then NaN else Fin 100) \<and>
              Rolling_Volatility_20 (rows df ! i) = (if i < 20 then NaN else Fin 0)"
    if "i < 60" for i
  proof -
    have i: "i < length (rows df)" using that len by simp
    have i59: "i \<le> 59" using that by simp
    have i60: "i < Suc 59" using that by simp
    have "Daily_Return (rows df ! i) = (NaN # replicate 59 (Fin 0)) ! i"
      using i by (simp only: nth_col dr)
    then have a: "Daily_Return (rows df ! i) = (if i = 0 then NaN else Fin 0)"
      using that by (cases i) (simp_all)
    have "MA5 (rows df ! i) = rolling_mean 5 (map Fin (replicate (Suc 59) 100)) ! i"
      using i by (simp only: nth_col ma5)
    then have b: "MA5 (rows df ! i) = (if i < 4 then NaN else Fin 100)"
      using nth_rolling_mean_replicate [OF i60, of 5 100] by (auto simp del: replicate_Suc)
    have "MA20 (rows df ! i) = rolling_mean 20 (map Fin (replicate (Suc 59) 100)) ! i"
      using i by (simp only: nth_col ma20)
    then have c: "MA20 (rows df ! i) = (if i < 19 then NaN else Fin 100)"
      using nth_rolling_mean_replicate [OF i60, of 20 100] by (auto simp del: replicate_Suc)
    have "MA50 (rows df ! i) = rolling_mean 50 (map Fin (replicate (Suc 59) 100)) ! i"
      using i by (simp only: nth_col ma50)
    then have d: "MA50 (rows df ! i) = (if i < 49 then NaN else Fin 100)"
      using nth_rolling_mean_replicate [OF i60, of 50 100] by (auto simp del: replicate_Suc)
    have "Rolling_Volatility_20 (rows df ! i) = rolling_std 20 (NaN # replicate 59 (Fin 0)) ! i"
      using i by (simp only: nth_col rv)
    then have e: "Rolling_Volatility_20 (rows df ! i) = (if i < 20 then NaN else Fin 0)"
      by (simp only: nth_rolling_std_flat [OF i59])
    from a b c d e show ?thesis by simp
  qed
  from l len row show ?thesis by blast
qed

theorem constant_close_scenario_witness:
  "\<exists>df. load_data constant_file = Inr df \<and> length (rows df) = 60 \<and>
     Daily_Return (rows df ! 0) = NaN \<and> Daily_Return (rows df ! 1) = Fin 0 \<and>
     MA5 (rows df ! 3) = NaN \<and> MA5 (rows df ! 4) = Fin 100 \<and>
     MA20 (rows df ! 19) = Fin 100 \<and> MA50 (rows df ! 48) = NaN \<and> MA50 (rows df ! 59) = Fin 100 \<and>
     Rolling_Volatility_20 (rows df ! 19) = NaN \<and> Rolling_Volatility_20 (rows df ! 20) = Fin 0"
proof -
  have h1: "loadable constant_file"
    by (auto simp: loadable_def constant_file_def example_row_def)
  have h2: "length (lines constant_file) = 60" by (simp add: constant_file_def)
  have h3: "\<forall>r\<in>set (lines constant_file). Trades r \<noteq> None \<and> Close r = 100"
    by (auto simp: constant_file_def example_row_def)
  from constant_close_scenario [OF h1 h2 h3] obtain df where
    l: "load_data constant_file = Inr df" and n: "length (rows df) = 60" and
    r: "\<forall>i<60.
              Daily_Return (rows df ! i) = (if i = 0 then NaN else Fin 0) \<and>
              MA5 (rows df ! i) = (if i < 4 then NaN else Fin 100) \<and>
              MA20 (rows df ! i) = (if i < 19 then NaN else Fin 100) \<and>
              MA50 (rows df ! i) = (if i < 49 then NaN else Fin 100) \<and>
              Rolling_Volatility_20 (rows df ! i) = (if i < 20 then NaN else Fin 0)"
    by blast
  have "Daily_Return (rows df ! 0) = NaN" using r by simp
  moreover have "Daily_Return (rows df ! 1) = Fin 0" using r by simp
  moreover have "MA5 (rows df ! 3) = NaN" using r by simp
  moreover have "MA5 (rows df ! 4) = Fin 100" using r by simp
  moreover have "MA20 (rows df ! 19) = Fin 100" using r by simp
  moreover have "MA50 (rows df ! 48) = NaN" using r by simp
  moreover have "MA50 (rows df ! 59) = Fin 100" using r by simp
  moreover have "Rolling_Volatility_20 (rows df ! 19) = NaN" using r by simp
  moreover have "Rolling_Volatility_20 (rows df ! 20) = Fin 0" using r by simp
  ultimately show ?thesis using l n by blast
qed

text \<open>
  Claim C8. For every frame and every choice of the three flags, the title and every
  statement of the selected sections leave the frame bound to \<open>df\<close> as it was: each of the
  calls they make on \<open>df\<close> (\<open>head\<close>, \<open>shape\<close>, \<open>isnull\<close>, \<open>dtypes\<close>, column selections,
  \<open>groupby\<close>) returns the frame unchanged, and the histograms, \<open>describe\<close>, \<open>corr\<close> and the
  plots work on the selections. This holds whatever the page held before and also
  when a section stops with an exception.
\<close>

theorem rendering_leaves_table_unchanged:
  "frame (render show_eda show_visuals show_metrics \<lparr>frame = Some d, page = p, exc = x\<rparr>) = Some d"
proof -
  have title: "snd (ret (Title ''Adani Ports Stock Market Dashboard'') d') = d'" for d'
    by simp
  have eda: "frame (if b then fold run eda_section s else s) = frame s" for b s
    by (simp add: frame_fold_run eda_section_reads)
  have visuals: "frame (if b then fold run visuals_section s else s) = frame s" for b s
    by (simp add: frame_fold_run visuals_section_reads)
  have metrics: "frame (if b then fold run metrics_section s else s) = frame s" for b s
    by (simp add: frame_fold_run metrics_section_reads)
  have "frame (render show_eda show_visuals show_metrics \<lparr>frame = Some d, page = p, exc = x\<rparr>) =
        frame \<lparr>frame = Some d, page = p, exc = x\<rparr>"
    unfolding render_def Let_def
    by (simp only: metrics visuals eda frame_run [OF title])
  then show ?thesis by simp
qed

text \<open>
  Claim C9. In every frame \<open>load_data\<close> returns, the rows are the retained lines in file
  order: the index is the increasing list of their line numbers, and \<open>Date\<close> and \<open>Close\<close> are
  those of the retained lines in that order. Every row-to-row and rolling column is
  computed from that sequence. The dates play no part: replacing the \<open>Date\<close> cells of the
  file by any dates that parse, in any order, gives a frame with the same index, \<open>Close\<close>,
  \<open>Volume\<close>, \<open>Daily_Return\<close>, \<open>MA5\<close>, \<open>MA20\<close>, \<open>MA50\<close>, \<open>Volume_Change\<close>,
  \<open>Rolling_Volatility_20\<close> and \<open>Rolling_Mean_20\<close>.
\<close>

theorem file_order_preserved:
  assumes "load_data file = Inr df"
  shows "map index (rows df) =
           filter (\<lambda>i. Trades (lines file ! i) \<noteq> None) [0..<length (lines file)] \<and>
         sorted_wrt (<) (map index (rows df)) \<and>
         map Date (rows df) = map Date (retained file) \<and>
         map Close (rows df) = map Close (retained file) \<and>
         winsorize1D (map Volume (retained file)) = Inr (map Volume (rows df)) \<and>
         map Daily_Return (rows df) = pct_change (map Close (retained file)) \<and>
         map MA5 (rows df) = rolling_mean 5 (map Fin (map Close (retained file))) \<and>
         map MA20 (rows df) = rolling_mean 20 (map Fin (map Close (retained file))) \<and>
         map MA50 (rows df) = rolling_mean 50 (map Fin (map Close (retained file))) \<and>
         map Volume_Change (rows df) = pct_change (map real_of_int (map Volume (rows df))) \<and>
         map Rolling_Volatility_20 (rows df) =
           rolling_std 20 (pct_change (map Close (retained file))) \<and>
         map Rolling_Mean_20 (rows df) =
           rolling_mean 20 (pct_change (map Close (retained file))) \<and>
         (\<forall>ds. length ds = length (lines file) \<and> Unparseable \<notin> set ds \<longrightarrow>
            (\<exists>df'. load_data (with_dates ds file) = Inr df' \<and>
               map index (rows df') = map index (rows df) \<and>
               map Close (rows df') = map Close (rows df) \<and>
               map Volume (rows df') = map Volume (rows df) \<and>
               map Daily_Return (rows df') = map Daily_Return (rows df) \<and>
               map MA5 (rows df') = map MA5 (rows df) \<and>
               map MA20 (rows df') = map MA20 (rows df) \<and>
               map MA50 (rows df') = map MA50 (rows df) \<and>
               map Volume_Change (rows df') = map Volume_Change (rows df) \<and>
               map Rolling_Volatility_20 (rows df') = map Rolling_Volatility_20 (rows df) \<and>
               map Rolling_Mean_20 (rows df') = map Rolling_Mean_20 (rows df)))"
proof -
  note c = load_data_columns [OF assms]
  have srt: "sorted_wrt (<) (map index (rows df))"
    unfolding c(3) by (rule sorted_wrt_filter) simp
  have redate: "\<exists>df'. load_data (with_dates ds file) = Inr df' \<and>
               map index (rows df') = map index (rows df) \<and>
               map Close (rows df') = map Close (rows df) \<and>
               map Volume (rows df') = map Volume (rows df) \<and>
               map Daily_Return (rows df') = map Daily_Return (rows df) \<and>
               map MA5 (rows df') = map MA5 (rows df) \<and>
               map MA20 (rows df') = map MA20 (rows df) \<and>
               map MA50 (rows df') = map MA50 (rows df) \<and>
               map Volume_Change (rows df') = map Volume_Change (rows df) \<and>
               map Rolling_Volatility_20 (rows df') = map Rolling_Volatility_20 (rows df) \<and>
               map Rolling_Mean_20 (rows df') = map Rolling_Mean_20 (rows df)"
    if len: "length ds = length (lines file)" and ok: "Unparseable \<notin> set ds" for ds
  proof -
    let ?file' = "with_dates ds file"
    have ld: "loadable ?file'"
      using load_data_loadable [OF assms] len ok by (rule loadable_with_dates)
    have lines': "lines ?file' = map (\<lambda>(r, d). r\<lparr>Date := d\<rparr>) (zip (lines file) ds)"
      by (simp add: with_dates_def)
    have cl: "map Close (retained ?file') = map Close (retained file)"
      unfolding lines' using len by (intro filter_with_dates) simp_all
    have vo: "map Volume (retained ?file') = map Volume (retained file)"
      unfolding lines' using len by (intro filter_with_dates) simp_all
    have "length (retained ?file') = length (retained file)"
      using cl by (rule map_eq_imp_length_eq)
    then have "retained ?file' \<noteq> []" using load_data_nonempty(2) [OF assms] by auto
    from load_data_succeeds [OF ld this] obtain df' where l': "load_data ?file' = Inr df'" ..
    note c' = load_data_columns [OF l']
    have n': "length (lines ?file') = length (lines file)" using len by (simp add: lines')
    have ix: "map index (rows df') = map index (rows df)"
      unfolding c'(3) c(3) n' unfolding lines' using len by (intro index_with_dates) simp
    have v: "map Volume (rows df') = map Volume (rows df)"
      using c'(11) c(11) vo by simp
    have "map Close (rows df') = map Close (rows df)" by (simp only: c'(8) c(8) cl)
    moreover have "map Daily_Return (rows df') = map Daily_Return (rows df)"
      by (simp only: c'(12) c(12) cl)
    moreover have "map MA5 (rows df') = map MA5 (rows df)" by (simp only: c'(13) c(13) cl)
    moreover have "map MA20 (rows df') = map MA20 (rows df)" by (simp only: c'(14) c(14) cl)
    moreover have "map MA50 (rows df') = map MA50 (rows df)" by (simp only: c'(15) c(15) cl)
    moreover have "map Volume_Change (rows df') = map Volume_Change (rows df)"
      by (simp only: c'(16) c(16) v)
    moreover have "map Rolling_Volatility_20 (rows df') = map Rolling_Volatility_20 (rows df)"
      by (simp only: c'(18) c(18) cl)
    moreover have "map Rolling_Mean_20 (rows df') = map Rolling_Mean_20 (rows df)"
      by (simp only: c'(19) c(19) cl)
    ultimately show ?thesis using l' ix v by blast
  qed
  from c(3) srt c(4) c(8) c(11) c(12) c(13) c(14) c(15) c(16) c(18) c(19) redate
  show ?thesis by blast
qed

theorem file_order_preserved_witness:
  "\<exists>df. load_data example_file = Inr df \<and>
     map index (rows df) = [0, 2, 3] \<and>
     map Date (rows df) = [Timestamp 2021 3 1, Timestamp 2021 2 26, Timestamp 2021 3 4] \<and>
     map Close (rows df) = [10, 12, 9] \<and>
     map Daily_Return (rows df) = pct_change [10, 12, 9] \<and>
     (\<exists>df'. load_data (with_dates [NaT, NaT, Timestamp 1999 12 31, Timestamp 1999 1 1] example_file)
              = Inr df' \<and>
         map index (rows df') = map index (rows df) \<and>
         map Daily_Return (rows df') = map Daily_Return (rows df) \<and>
         map MA5 (rows df') = map MA5 (rows df) \<and>
         map Rolling_Volatility_20 (rows df') = map Rolling_Volatility_20 (rows df))"
proof -
  from example_file_loads obtain df where l: "load_data example_file = Inr df" ..
  note t = file_order_preserved [OF l]
  have a: "filter (\<lambda>i. Trades (lines example_file ! i) \<noteq> None) [0..<length (lines example_file)] = [0, 2, 3]"
    by (simp add: example_file_def example_row_def upt_rec)
  have b: "map Date (retained example_file) = [Timestamp 2021 3 1, Timestamp 2021 2 26, Timestamp 2021 3 4]"
    by (simp add: example_file_def example_row_def)
  have c: "map Close (retained example_file) = [10, 12, 9]"
    by (simp add: example_file_def example_row_def)
  let ?ds = "[NaT, NaT, Timestamp 1999 12 31, Timestamp 1999 1 1]"
  have d: "length ?ds = length (lines example_file) \<and> Unparseable \<notin> set ?ds"
    by (simp add: example_file_def)
  from t have ix: "map index (rows df) =
      filter (\<lambda>i. Trades (lines example_file ! i) \<noteq> None) [0..<length (lines example_file)]"
    by (elim conjE)
  from t have dt: "map Date (rows df) = map Date (retained example_file)"
    by (elim conjE)
  from t have cl: "map Close (rows df) = map Close (retained example_file)"
    by (elim conjE)
  from t have dr: "map Daily_Return (rows df) = pct_change (map Close (retained example_file))"
    by (elim conjE)
  from t have "\<forall>ds. length ds = length (lines example_file) \<and> Unparseable \<notin> set ds \<longrightarrow>
            (\<exists>df'. load_data (with_dates ds example_file) = Inr df' \<and>
               map index (rows df') = map index (rows df) \<and>
               map Close (rows df') = map Close (rows df) \<and>
               map Volume (rows df') = map Volume (rows df) \<and>
               map Daily_Return (rows df') = map Daily_Return (rows df) \<and>
               map MA5 (rows df') = map MA5 (rows df) \<and>
               map MA20 (rows df') = map MA20 (rows df) \<and>
               map MA50 (rows df') = map MA50 (rows df) \<and>
               map Volume_Change (rows df') = map Volume_Change (rows df) \<and>
               map Rolling_Volatility_20 (rows df') = map Rolling_Volatility_20 (rows df) \<and>
               map Rolling_Mean_20 (rows df') = map Rolling_Mean_20 (rows df))"
    by (elim conjE)
  then have "length ?ds = length (lines example_file) \<and> Unparseable \<notin> set ?ds \<longrightarrow>
            (\<exists>df'. load_data (with_dates ?ds example_file) = Inr df' \<and>
               map index (rows df') = map index (rows df) \<and>
               map Close (rows df') = map Close (rows df) \<and>
               map Volume (rows df') = map Volume (rows df) \<and>
               map Daily_Return (rows df') = map Daily_Return (rows df) \<and>
               map MA5 (rows df') = map MA5 (rows df) \<and>
               map MA20 (rows df') = map MA20 (rows df) \<and>
               map MA50 (rows df') = map MA50 (rows df) \<and>
               map Volume_Change (rows df') = map Volume_Change (rows df) \<and>
               map Rolling_Volatility_20 (rows df') = map Rolling_Volatility_20 (rows df) \<and>
               map Rolling_Mean_20 (rows df') = map Rolling_Mean_20 (rows df))"
    by (rule spec)
  from this d obtain df' where r:
    "load_data (with_dates ?ds example_file) = Inr df' \<and>
               map index (rows df') = map index (rows df) \<and>
               map Close (rows df') = map Close (rows df) \<and>
               map Volume (rows df') = map Volume (rows df) \<and>
               map Daily_Return (rows df') = map Daily_Return (rows df) \<and>
               map MA5 (rows df') = map MA5 (rows df) \<and>
               map MA20 (rows df') = map MA20 (rows df) \<and>
               map MA50 (rows df') = map MA50 (rows df) \<and>
               map Volume_Change (rows df') = map Volume_Change (rows df) \<and>
               map Rolling_Volatility_20 (rows df') = map Rolling_Volatility_20 (rows df) \<and>
               map Rolling_Mean_20 (rows df') = map Rolling_Mean_20 (rows df)"
    by (elim impE exE) assumption
  have inner: "\<exists>df'. load_data (with_dates ?ds example_file) = Inr df' \<and>
         map index (rows df') = map index (rows df) \<and>
         map Daily_Return (rows df') = map Daily_Return (rows df) \<and>
         map MA5 (rows df') = map MA5 (rows df) \<and>
         map Rolling_Volatility_20 (rows df') = map Rolling_Volatility_20 (rows df)"
    using r by (intro exI [of _ df']) (elim conjE, intro conjI)
  have "load_data example_file = Inr df \<and>
     map index (rows df) = [0, 2, 3] \<and>
     map Date (rows df) = [Timestamp 2021 3 1, Timestamp 2021 2 26, Timestamp 2021 3 4] \<and>
     map Close (rows df) = [10, 12, 9] \<and>
     map Daily_Return (rows df) = pct_change [10, 12, 9]"
    using l by (simp only: ix a dt b cl c dr)
  with inner show ?thesis by (intro exI [of _ df]) (elim conjE, intro conjI)
qed

text \<open>
  Claim C10, as stated, fails when no line is retained: \<open>int(0.01 * 0) = 0\<close>, yet
  winsorization raises \<open>IndexError\<close> on the empty column and \<open>load_data\<close> with it.
\<close>

theorem small_input_counterexample:
  "int_of_limit (length (retained untraded_file)) = 0 \<and>
   winsorize1D (map Volume (retained untraded_file)) = Inl IndexError \<and>
   load_data untraded_file = Inl IndexError"
  using untraded_file_fails
  by (simp add: int_of_limit_def winsorize1D_empty untraded_file_def example_row_def)

text \<open>
  Claim C10, amended. For every loadable file whose retained lines number at least 1
  and fewer than 100, winsorization returns the \<open>Volume\<close> column as it is, and
  \<open>load_data\<close> returns a frame whose \<open>Volume\<close> column is that of the retained lines: no
  value is clipped.
\<close>

theorem small_input_not_clipped:
  assumes "loadable file" and "retained file \<noteq> []" and "length (retained file) < 100"
  shows "winsorize1D (map Volume (retained file)) = Inr (map Volume (retained file)) \<and>
         (\<exists>df. load_data file = Inr df \<and> map Volume (rows df) = map Volume (retained file))"
proof -
  have w: "winsorize1D (map Volume (retained file)) = Inr (map Volume (retained file))"
    using assms(2,3) by (intro winsorize1D_small) simp_all
  from load_data_succeeds [OF assms(1,2)] obtain df where l: "load_data file = Inr df" ..
  have "winsorize1D (map Volume (retained file)) = Inr (map Volume (rows df))"
    using l by (rule load_data_columns)
  with w have "map Volume (rows df) = map Volume (retained file)" by simp
  with w l show ?thesis by blast
qed

theorem small_input_not_clipped_witness:
  "loadable example_file \<and> retained example_file \<noteq> [] \<and> length (retained example_file) < 100 \<and>
   winsorize1D [500, 90000, 0] = Inr [500, 90000, 0] \<and>
   (\<exists>df. load_data example_file = Inr df \<and> map Volume (rows df) = [500, 90000, 0])"
proof -
  have h: "loadable example_file" "retained example_file \<noteq> []" "length (retained example_file) < 100"
    by (simp_all add: loadable_def example_file_def example_row_def)
  have v: "map Volume (retained example_file) = [500, 90000, 0]"
    by (simp add: example_file_def example_row_def)
  show ?thesis using h small_input_not_clipped [OF h] by (simp only: v) simp
qed

end
